theory Spec2Isabelle
  imports Main
begin

section \<open>JavaScript values\<close>

text \<open>
  The documents, queries, write concerns and option values handled by the library are
  plain JavaScript values. Objects keep their properties in insertion order.
\<close>

datatype jsvalue =
    JUndefined
  | JNull
  | JBool bool
  | JNum int
  | JNaN
  | JStr string
  | JObjectId nat
  | JFunction string
  | JArr "jsvalue list"
  | JObj "(string \<times> jsvalue) list"

datatype error = TypeError | Rejected jsvalue

fun truthy :: "jsvalue \<Rightarrow> bool" where
  "truthy JUndefined = False"
| "truthy JNull = False"
| "truthy (JBool b) = b"
| "truthy (JNum n) = (n \<noteq> 0)"
| "truthy JNaN = False"
| "truthy (JStr s) = (s \<noteq> [])"
| "truthy (JObjectId i) = True"
| "truthy (JFunction f) = True"
| "truthy (JArr xs) = True"
| "truthy (JObj kvs) = True"

text \<open>\<open>obj[k] = v\<close>: an existing property keeps its place, a new one goes last.\<close>

fun obj_set :: "string \<Rightarrow> 'v \<Rightarrow> (string \<times> 'v) list \<Rightarrow> (string \<times> 'v) list" where
  "obj_set k v [] = [(k, v)]"
| "obj_set k v (p # ps) = (if fst p = k then (k, v) # ps else p # obj_set k v ps)"

text \<open>\<open>obj[k]\<close> on an object literal: the value, or \<open>undefined\<close>.\<close>

definition obj_get :: "string \<Rightarrow> (string \<times> jsvalue) list \<Rightarrow> jsvalue" where
  "obj_get k kvs = (case map_of kvs k of None \<Rightarrow> JUndefined | Some v \<Rightarrow> v)"

text \<open>
  \<open>Object.keys(obj)\<close> lists first the own keys that are array indices, in ascending
  numeric order, and then the other keys in insertion order. An array index is the
  decimal form, with no leading zero, of an integer from 0 to \<open>2^32 - 2\<close>.
  \<open>own_entries\<close> gives the properties in that order.
\<close>

definition digit :: "char \<Rightarrow> int option" where
  "digit ch =
     map_of [(CHR ''0'', 0), (CHR ''1'', 1), (CHR ''2'', 2), (CHR ''3'', 3), (CHR ''4'', 4),
             (CHR ''5'', 5), (CHR ''6'', 6), (CHR ''7'', 7), (CHR ''8'', 8), (CHR ''9'', 9)] ch"

fun decimal :: "string \<Rightarrow> int \<Rightarrow> int option" where
  "decimal [] acc = Some acc"
| "decimal (ch # chs) acc =
     (case digit ch of None \<Rightarrow> None | Some d \<Rightarrow> decimal chs (10 * acc + d))"

definition array_index :: "string \<Rightarrow> int option" where
  "array_index k =
     (if k = [] \<or> (hd k = CHR ''0'' \<and> tl k \<noteq> []) then None
      else (case decimal k 0 of
              None \<Rightarrow> None
            | Some i \<Rightarrow> if i < 4294967295 then Some i else None))"

definition own_entries :: "(string \<times> 'v) list \<Rightarrow> (string \<times> 'v) list" where
  "own_entries kvs =
     sort_key (\<lambda>kv. case array_index (fst kv) of None \<Rightarrow> 0 | Some i \<Rightarrow> i)
       (filter (\<lambda>kv. array_index (fst kv) \<noteq> None) kvs) @
     filter (\<lambda>kv. array_index (fst kv) = None) kvs"

section \<open>Bulk: the batch accumulator\<close>

definition MAX_BULK_SIZE :: nat where
  "MAX_BULK_SIZE = 1000"

subsection \<open>class Command\<close>

record Command =
  ordered :: bool
  writeConcern :: jsvalue
  cmdNames :: "(string \<times> string) list"
  bulkCollections :: "(string \<times> jsvalue list) list"

definition Command_new :: "bool \<Rightarrow> jsvalue \<Rightarrow> Command" where
  "Command_new ord wc =
     \<lparr>ordered = ord, writeConcern = wc, cmdNames = [], bulkCollections = []\<rparr>"

definition setCmdName :: "string \<Rightarrow> string \<Rightarrow> Command \<Rightarrow> Command" where
  "setCmdName cmdName col c = c\<lparr>cmdNames := obj_set cmdName col (cmdNames c)\<rparr>"

definition setBulkCollection :: "string \<Rightarrow> Command \<Rightarrow> Command" where
  "setBulkCollection bulkCollection c =
     c\<lparr>bulkCollections := obj_set bulkCollection [] (bulkCollections c)\<rparr>"

text \<open>
  \<open>cmdNames\<close> and \<open>bulkCollections\<close> start as \<open>{}\<close>, so a read \<open>obj[name]\<close> finds the own
  entry, or else what \<open>Object.prototype\<close> has under that name (a function, or for
  \<open>__proto__\<close> the prototype itself), or else \<open>undefined\<close>. A write to \<open>__proto__\<close> makes no
  own entry and is not followed here; the class passes none of these names.
\<close>

definition Object_prototype_names :: "string list" where
  "Object_prototype_names =
     [''constructor'', ''hasOwnProperty'', ''isPrototypeOf'', ''propertyIsEnumerable'',
      ''toLocaleString'', ''toString'', ''valueOf'', ''__defineGetter__'', ''__defineSetter__'',
      ''__lookupGetter__'', ''__lookupSetter__'', ''__proto__'']"

datatype 'a lookup = Own 'a | Inherited | Missing

definition obj_lookup :: "string \<Rightarrow> (string \<times> 'a) list \<Rightarrow> 'a lookup" where
  "obj_lookup k kvs =
     (case map_of kvs k of
        Some v \<Rightarrow> Own v
      | None \<Rightarrow> if k \<in> set Object_prototype_names then Inherited else Missing)"

definition getCmdName :: "string \<Rightarrow> Command \<Rightarrow> string lookup" where
  "getCmdName cmdName c = obj_lookup cmdName (cmdNames c)"

definition getBulkCollection :: "string \<Rightarrow> Command \<Rightarrow> jsvalue list lookup" where
  "getBulkCollection bulkCollection c = obj_lookup bulkCollection (bulkCollections c)"

text \<open>
  The truth value JavaScript gives the result of \<open>getCmdName\<close>: \<open>undefined\<close> and the
  empty string are falsy, an inherited function or object is truthy.
\<close>

fun truthy_name :: "string lookup \<Rightarrow> bool" where
  "truthy_name Missing = False"
| "truthy_name Inherited = True"
| "truthy_name (Own s) = (s \<noteq> [])"

text \<open>
  The own enumerable properties of a \<open>Command\<close> instance, as \<open>Object.keys\<close> lists them:
  the four fields, here in declaration order (the methods live on the prototype). When
  the compiler emits the two initialised fields as assignments placed before the
  constructor body, \<open>cmdNames\<close> and \<open>bulkCollections\<close> come first instead; \<open>cmdKeys\<close>
  below has none of the four names, so \<open>setResult\<close> does the same in both orders. Then a
  property read \<open>cmd[name]\<close> on an instance.
\<close>

definition Command_keys :: "Command \<Rightarrow> string list" where
  "Command_keys c = [''ordered'', ''writeConcern'', ''cmdNames'', ''bulkCollections'']"

definition Command_methods :: "string list" where
  "Command_methods = [''setCmdName'', ''setBulkCollection'', ''getCmdName'', ''getBulkCollection'']"

definition Command_prop :: "Command \<Rightarrow> string \<Rightarrow> jsvalue" where
  "Command_prop c name =
     (if name = ''ordered'' then JBool (ordered c)
      else if name = ''writeConcern'' then writeConcern c
      else if name = ''cmdNames'' then JObj (map (\<lambda>(k, v). (k, JStr v)) (cmdNames c))
      else if name = ''bulkCollections'' then JObj (map (\<lambda>(k, v). (k, JArr v)) (bulkCollections c))
      else if name \<in> set Command_methods then JFunction name
      else JUndefined)"

subsection \<open>class Bulk\<close>

text \<open>
  \<open>cmds\<close> and \<open>currentCmd\<close> hold references to \<open>Command\<close> objects: the same object can
  be in \<open>cmds\<close> and still be the open command. References are indices into \<open>heap\<close>;
  only \<open>startCommand\<close> makes a new one, the next free index.
\<close>

record Bulk =
  colName :: string
  bulkOrdered :: bool
  bulkWriteConcern :: jsvalue
  cmds :: "nat list"
  currentCmd :: "nat option"
  heap :: "Command list"

text \<open>
  The constructor. \<open>opts\<close> is \<open>None\<close> when the argument is left out, and its default is
  \<open>{ writeConcern: { w: 1 } }\<close>; \<open>currentCmd\<close> is not assigned and so is \<open>undefined\<close>.
\<close>

definition default_writeConcern :: jsvalue where
  "default_writeConcern = JObj [(''w'', JNum 1)]"

definition Bulk_new :: "string \<Rightarrow> bool \<Rightarrow> (string \<times> jsvalue) list option \<Rightarrow> Bulk" where
  "Bulk_new col ord opts =
     (let opts' = (case opts of None \<Rightarrow> [(''writeConcern'', default_writeConcern)] | Some kvs \<Rightarrow> kvs);
          wc = obj_get ''writeConcern'' opts'
      in \<lparr>colName = col, bulkOrdered = ord,
          bulkWriteConcern = (if truthy wc then wc else default_writeConcern),
          cmds = [], currentCmd = None, heap = []\<rparr>)"

text \<open>
  The test of the first \<open>if\<close> of \<open>ensureCommand\<close> on the open command. The right operand
  of \<open>||\<close> is evaluated only when the left one is false, and \<open>.length\<close> of \<open>undefined\<close>
  throws. The \<open>length\<close> of an inherited function is its number of parameters, at most 2,
  and the prototype object has none: neither is \<open>MAX_BULK_SIZE\<close>.
\<close>

definition mustFlush :: "string \<Rightarrow> string \<Rightarrow> Command \<Rightarrow> error + bool" where
  "mustFlush cmdName bulkCollection c =
     (if \<not> truthy_name (getCmdName cmdName c) then Inr True
      else (case getBulkCollection bulkCollection c of
              Missing \<Rightarrow> Inl TypeError
            | Inherited \<Rightarrow> Inr False
            | Own ops \<Rightarrow> Inr (length ops = MAX_BULK_SIZE)))"

definition flushCurrent :: "string \<Rightarrow> string \<Rightarrow> Bulk \<Rightarrow> error + Bulk" where
  "flushCurrent cmdName bulkCollection b =
     (case currentCmd b of
        None \<Rightarrow> Inr b
      | Some r \<Rightarrow>
          (case mustFlush cmdName bulkCollection (heap b ! r) of
             Inl e \<Rightarrow> Inl e
           | Inr True \<Rightarrow> Inr (b\<lparr>cmds := cmds b @ [r], currentCmd := None\<rparr>)
           | Inr False \<Rightarrow> Inr b))"

definition startCommand :: "string \<Rightarrow> string \<Rightarrow> Bulk \<Rightarrow> nat \<times> Bulk" where
  "startCommand cmdName bulkCollection b =
     (case currentCmd b of
        Some r \<Rightarrow> (r, b)
      | None \<Rightarrow>
          (let c = setBulkCollection bulkCollection
                     (setCmdName cmdName (colName b)
                        (Command_new (bulkOrdered b) (bulkWriteConcern b)));
               r = length (heap b)
           in (r, b\<lparr>currentCmd := Some r, heap := heap b @ [c]\<rparr>)))"

text \<open>\<open>ensureCommand\<close> returns the (reference of the) open command and the new state.\<close>

definition ensureCommand :: "string \<Rightarrow> string \<Rightarrow> Bulk \<Rightarrow> error + nat \<times> Bulk" where
  "ensureCommand cmdName bulkCollection b =
     (case flushCurrent cmdName bulkCollection b of
        Inl e \<Rightarrow> Inl e
      | Inr b1 \<Rightarrow> Inr (startCommand cmdName bulkCollection b1))"

text \<open>
  \<open>cmd.getBulkCollection(name).push(v)\<close> on the command behind reference \<open>r\<close>. Only an
  array has \<open>push\<close>.
\<close>

definition pushOp :: "nat \<Rightarrow> string \<Rightarrow> jsvalue \<Rightarrow> Bulk \<Rightarrow> error + Bulk" where
  "pushOp r bulkCollection v b =
     (let c = heap b ! r in
      case getBulkCollection bulkCollection c of
        Missing \<Rightarrow> Inl TypeError
      | Inherited \<Rightarrow> Inl TypeError
      | Own ops \<Rightarrow>
          Inr (b\<lparr>heap := (heap b)[r := c\<lparr>bulkCollections :=
                   obj_set bulkCollection (ops @ [v]) (bulkCollections c)\<rparr>]\<rparr>))"

text \<open>
  \<open>insert(doc)\<close>. The document is an object; \<open>oid\<close> is the identifier \<open>new ObjectId()\<close>
  would produce, used only when the document has no truthy \<open>_id\<close>.
\<close>

definition with_id :: "(string \<times> jsvalue) list \<Rightarrow> nat \<Rightarrow> (string \<times> jsvalue) list" where
  "with_id doc oid =
     obj_set ''_id'' (if truthy (obj_get ''_id'' doc) then obj_get ''_id'' doc else JObjectId oid) doc"

definition insert_doc :: "(string \<times> jsvalue) list \<Rightarrow> nat \<Rightarrow> Bulk \<Rightarrow> error + Bulk" where
  "insert_doc doc oid b =
     (case ensureCommand ''insert'' ''documents'' b of
        Inl e \<Rightarrow> Inl e
      | Inr (r, b1) \<Rightarrow> pushOp r ''documents'' (JObj (with_id doc oid)) b1)"

subsection \<open>class FindSyntax and find\<close>

text \<open>
  \<open>find(q)\<close> returns a builder that closes over the query and over a local \<open>upsert\<close>
  flag, initially false.
\<close>

record FindSyntax =
  fs_q :: jsvalue
  fs_upsert :: bool

definition find_bulk :: "jsvalue \<Rightarrow> FindSyntax" where
  "find_bulk q = \<lparr>fs_q = q, fs_upsert = False\<rparr>"

definition upsert :: "FindSyntax \<Rightarrow> FindSyntax" where
  "upsert fs = fs\<lparr>fs_upsert := True\<rparr>"

definition find_remove :: "FindSyntax \<Rightarrow> int \<Rightarrow> Bulk \<Rightarrow> error + Bulk" where
  "find_remove fs limit b =
     (case ensureCommand ''delete'' ''deletes'' b of
        Inl e \<Rightarrow> Inl e
      | Inr (r, b1) \<Rightarrow>
          pushOp r ''deletes'' (JObj [(''q'', fs_q fs), (''limit'', JNum limit)]) b1)"

definition find_update :: "FindSyntax \<Rightarrow> jsvalue \<Rightarrow> bool \<Rightarrow> Bulk \<Rightarrow> error + Bulk" where
  "find_update fs u multi b =
     (case ensureCommand ''update'' ''updates'' b of
        Inl e \<Rightarrow> Inl e
      | Inr (r, b1) \<Rightarrow>
          pushOp r ''updates''
            (JObj [(''q'', fs_q fs), (''u'', u), (''multi'', JBool multi),
                   (''upsert'', JBool (fs_upsert fs))]) b1)"

definition remove :: "FindSyntax \<Rightarrow> Bulk \<Rightarrow> error + Bulk" where
  "remove fs b = find_remove fs 0 b"

definition removeOne :: "FindSyntax \<Rightarrow> Bulk \<Rightarrow> error + Bulk" where
  "removeOne fs b = find_remove fs 1 b"

definition update :: "FindSyntax \<Rightarrow> jsvalue \<Rightarrow> Bulk \<Rightarrow> error + Bulk" where
  "update fs updObj b = find_update fs updObj True b"

definition updateOne :: "FindSyntax \<Rightarrow> jsvalue \<Rightarrow> Bulk \<Rightarrow> error + Bulk" where
  "updateOne fs updObj b = find_update fs updObj False b"

definition replaceOne :: "FindSyntax \<Rightarrow> jsvalue \<Rightarrow> Bulk \<Rightarrow> error + Bulk" where
  "replaceOne fs updObj b = updateOne fs updObj b"

subsection \<open>Sequences of accumulating calls\<close>

text \<open>
  One call of the accumulating interface: \<open>insert(doc)\<close>, or \<open>find(q)\<close>, optionally
  \<open>upsert()\<close> (the flag), and then one of the terminal methods.
\<close>

datatype intent =
    Insert "(string \<times> jsvalue) list" nat
  | Update jsvalue bool jsvalue
  | UpdateOne jsvalue bool jsvalue
  | ReplaceOne jsvalue bool jsvalue
  | Remove jsvalue
  | RemoveOne jsvalue

definition builder :: "jsvalue \<Rightarrow> bool \<Rightarrow> FindSyntax" where
  "builder q ups = (if ups then upsert (find_bulk q) else find_bulk q)"

fun perform :: "intent \<Rightarrow> Bulk \<Rightarrow> error + Bulk" where
  "perform (Insert doc oid) b = insert_doc doc oid b"
| "perform (Update q ups u) b = update (builder q ups) u b"
| "perform (UpdateOne q ups u) b = updateOne (builder q ups) u b"
| "perform (ReplaceOne q ups u) b = replaceOne (builder q ups) u b"
| "perform (Remove q) b = remove (builder q False) b"
| "perform (RemoveOne q) b = removeOne (builder q False) b"

text \<open>A sequence of calls, one after the other; an exception ends it.\<close>

fun accumulate :: "intent list \<Rightarrow> Bulk \<Rightarrow> error + Bulk" where
  "accumulate [] b = Inr b"
| "accumulate (i # rest) b =
     (case perform i b of Inl e \<Rightarrow> Inl e | Inr b' \<Rightarrow> accumulate rest b')"

text \<open>
  The kind of a call, with the command name and the bucket name the class uses for it,
  and the operation the call puts into the bucket.
\<close>

datatype kind = KInsert | KUpdate | KDelete

fun cmdName_of :: "kind \<Rightarrow> string" where
  "cmdName_of KInsert = ''insert''"
| "cmdName_of KUpdate = ''update''"
| "cmdName_of KDelete = ''delete''"

fun bucket_of :: "kind \<Rightarrow> string" where
  "bucket_of KInsert = ''documents''"
| "bucket_of KUpdate = ''updates''"
| "bucket_of KDelete = ''deletes''"

fun kind_of :: "intent \<Rightarrow> kind" where
  "kind_of (Insert doc oid) = KInsert"
| "kind_of (Update q ups u) = KUpdate"
| "kind_of (UpdateOne q ups u) = KUpdate"
| "kind_of (ReplaceOne q ups u) = KUpdate"
| "kind_of (Remove q) = KDelete"
| "kind_of (RemoveOne q) = KDelete"

fun payload :: "intent \<Rightarrow> jsvalue" where
  "payload (Insert doc oid) = JObj (with_id doc oid)"
| "payload (Update q ups u) =
     JObj [(''q'', q), (''u'', u), (''multi'', JBool True), (''upsert'', JBool ups)]"
| "payload (UpdateOne q ups u) =
     JObj [(''q'', q), (''u'', u), (''multi'', JBool False), (''upsert'', JBool ups)]"
| "payload (ReplaceOne q ups u) =
     JObj [(''q'', q), (''u'', u), (''multi'', JBool False), (''upsert'', JBool ups)]"
| "payload (Remove q) = JObj [(''q'', q), (''limit'', JNum 0)]"
| "payload (RemoveOne q) = JObj [(''q'', q), (''limit'', JNum 1)]"

subsection \<open>The batches the specification describes\<close>

text \<open>
  The specification's batching, on the calls themselves: a call joins the last batch
  when that batch has its kind and has room, and starts a new batch otherwise. A batch
  is a kind and the calls in it, in order.
\<close>

fun addIntent :: "(kind \<times> intent list) list \<Rightarrow> intent \<Rightarrow> (kind \<times> intent list) list" where
  "addIntent [] i = [(kind_of i, [i])]"
| "addIntent [g] i =
     (if fst g = kind_of i \<and> length (snd g) < MAX_BULK_SIZE then [(fst g, snd g @ [i])]
      else [g, (kind_of i, [i])])"
| "addIntent (g # gs) i = g # addIntent gs i"

definition batches :: "intent list \<Rightarrow> (kind \<times> intent list) list" where
  "batches is = foldl addIntent [] is"

text \<open>The \<open>Command\<close> object that holds one batch.\<close>

definition mkCommand :: "string \<Rightarrow> bool \<Rightarrow> jsvalue \<Rightarrow> kind \<times> intent list \<Rightarrow> Command" where
  "mkCommand col ord wc g =
     \<lparr>ordered = ord, writeConcern = wc,
      cmdNames = [(cmdName_of (fst g), col)],
      bulkCollections = [(bucket_of (fst g), map payload (snd g))]\<rparr>"

text \<open>All the operations a command carries, whatever the bucket.\<close>

definition operationsOf :: "Command \<Rightarrow> jsvalue list" where
  "operationsOf c = concat (map snd (bulkCollections c))"

subsection \<open>execute\<close>

text \<open>
  What the store answers to one command: the count \<open>n\<close>, when documents failed their
  write errors, and for an update the entries it upserted and the count \<open>nModified\<close>.
  \<open>execute\<close> reads \<open>n\<close> and \<open>writeErrors\<close> only. A command the store rejects is an
  \<open>error\<close> instead.
\<close>

record CommandResult =
  n :: int
  cr_writeErrors :: "jsvalue list option"
  cr_upserted :: "jsvalue list option"
  cr_nModified :: "int option"

text \<open>
  The result object of \<open>execute\<close>. \<open>extra\<close> holds the properties that are added to
  the literal afterwards, in the order they are added.
\<close>

record BatchResult =
  writeErrors :: "jsvalue list"
  writeConcernErrors :: "jsvalue list"
  nInserted :: int
  nUpserted :: int
  nMatched :: int
  nModified :: int
  nRemoved :: int
  upserted :: "jsvalue list"
  extra :: "(string \<times> jsvalue) list"

definition result_init :: BatchResult where
  "result_init =
     \<lparr>writeErrors = [], writeConcernErrors = [], nInserted = 0, nUpserted = 0, nMatched = 0,
      nModified = 0, nRemoved = 0, upserted = [], extra = []\<rparr>"

definition cmdKeys :: "(string \<times> string) list" where
  "cmdKeys = [(''insert'', ''nInserted''), (''delete'', ''nRemoved''), (''update'', ''nUpserted'')]"

text \<open>
  \<open>result[key] += n\<close>, where \<open>key\<close> is the value read from \<open>cmdKeys\<close>. A key that
  \<open>cmdKeys\<close> does not have reads as \<open>undefined\<close>, the property written is then the one
  named \<open>undefined\<close>, and \<open>undefined + n\<close> as well as \<open>NaN + n\<close> is \<open>NaN\<close>. The values
  of \<open>cmdKeys\<close> name count fields only.
\<close>

definition add_count :: "string option \<Rightarrow> int \<Rightarrow> BatchResult \<Rightarrow> BatchResult" where
  "add_count key k res =
     (case key of
        None \<Rightarrow> res\<lparr>extra := obj_set ''undefined'' JNaN (extra res)\<rparr>
      | Some f \<Rightarrow>
          if f = ''nInserted'' then res\<lparr>nInserted := nInserted res + k\<rparr>
          else if f = ''nUpserted'' then res\<lparr>nUpserted := nUpserted res + k\<rparr>
          else if f = ''nMatched'' then res\<lparr>nMatched := nMatched res + k\<rparr>
          else if f = ''nModified'' then res\<lparr>nModified := nModified res + k\<rparr>
          else if f = ''nRemoved'' then res\<lparr>nRemoved := nRemoved res + k\<rparr>
          else res)"

text \<open>\<open>Object.keys(cmd)[0]\<close>; a \<open>Command\<close> always has own properties.\<close>

definition firstKey :: "Command \<Rightarrow> string" where
  "firstKey cmd = hd (Command_keys cmd)"

definition setResult :: "Command \<Rightarrow> CommandResult \<Rightarrow> BatchResult \<Rightarrow> BatchResult" where
  "setResult cmd cmdResult res =
     (let cmdKey = firstKey cmd;
          res1 = add_count (map_of cmdKeys cmdKey) (n cmdResult) res
      in case cr_writeErrors cmdResult of
           None \<Rightarrow> res1
         | Some es \<Rightarrow> res1\<lparr>writeErrors := writeErrors res1 @ es\<rparr>)"

text \<open>
  The store connection is outside the library. \<open>connection.command(cmd)\<close> is a function
  of the command and the store's state; it resolves with a \<open>CommandResult\<close> or rejects.
  The world also keeps a log of what happened, in order: each submission of a command
  and each merge of a response into the result.
\<close>

type_synonym 's connection = "Command \<Rightarrow> 's \<Rightarrow> (error + CommandResult) \<times> 's"

datatype event = Submitted Command | Merged Command

record 's world =
  store :: 's
  trace :: "event list"

text \<open>
  The callback given to \<open>each\<close>: \<open>cmd => connection.command(cmd).then(cmdResult =>
  setResult(cmd, cmdResult))\<close>. A \<open>null\<close> connection makes the call throw.
\<close>

definition executeCmd ::
  "'s connection option \<Rightarrow> Command \<Rightarrow> BatchResult \<times> 's world
     \<Rightarrow> error \<times> 's world + BatchResult \<times> 's world" where
  "executeCmd connection cmd st =
     (case connection of
        None \<Rightarrow> Inl (TypeError, snd st)
      | Some command \<Rightarrow>
          (let w1 = (snd st)\<lparr>trace := trace (snd st) @ [Submitted cmd]\<rparr>;
               (r, s') = command cmd (store w1)
           in case r of
                Inl e \<Rightarrow> Inl (e, w1\<lparr>store := s'\<rparr>)
              | Inr cmdResult \<Rightarrow>
                  Inr (setResult cmd cmdResult (fst st),
                       w1\<lparr>store := s', trace := trace w1 @ [Merged cmd]\<rparr>)))"

text \<open>
  \<open>each(cmds, executeCmd, idx)\<close>: the promise of one command is chained to the call for
  the next index, and a rejection ends the chain.
\<close>

function each ::
  "Command list \<Rightarrow> (Command \<Rightarrow> 'a \<times> 'w \<Rightarrow> error \<times> 'w + 'a \<times> 'w) \<Rightarrow> nat \<Rightarrow> 'a \<times> 'w
     \<Rightarrow> error \<times> 'w + 'a \<times> 'w" where
  "each cs exec idx st =
     (if idx < length cs then
        (case exec (cs ! idx) st of
           Inl e \<Rightarrow> Inl e
         | Inr st' \<Rightarrow> each cs exec (idx + 1) st')
      else Inr st)"
  by pat_completeness auto
termination
  by (relation "measure (\<lambda>(cs, exec, idx, st). length cs - idx)") auto

declare each.simps [simp del]

definition pushCurrentCmd :: "Bulk \<Rightarrow> Bulk" where
  "pushCurrentCmd b =
     (case currentCmd b of None \<Rightarrow> b | Some r \<Rightarrow> b\<lparr>cmds := cmds b @ [r]\<rparr>)"

text \<open>The commands behind \<open>this.cmds\<close>, in the order of the array.\<close>

definition commands :: "Bulk \<Rightarrow> Command list" where
  "commands b = map (\<lambda>r. heap b ! r) (cmds b)"

text \<open>
  \<open>execute()\<close>. \<open>connect\<close> resolves with the connection (or \<open>null\<close>) or rejects. The
  outcome is the resolved result or the rejection, with the new state of the instance
  and of the world.
\<close>

definition execute ::
  "('s \<Rightarrow> (error + 's connection option) \<times> 's) \<Rightarrow> Bulk \<Rightarrow> 's world
     \<Rightarrow> (error + BatchResult) \<times> Bulk \<times> 's world" where
  "execute connect b w =
     (let b1 = pushCurrentCmd b;
          (c, s1) = connect (store w);
          w1 = w\<lparr>store := s1\<rparr>
      in case c of
           Inl e \<Rightarrow> (Inl e, b1, w1)
         | Inr connection \<Rightarrow>
             (case each (commands b1) (executeCmd connection) 0 (result_init, w1) of
                Inl (e, w2) \<Rightarrow> (Inl e, b1, w2)
              | Inr (res, w2) \<Rightarrow>
                  (Inr (res\<lparr>extra := obj_set ''ok'' (JNum 1) (extra res)\<rparr>), b1, w2)))"

subsection \<open>execute, event by event\<close>

text \<open>
  In \<open>executeCmd\<close>, \<open>each\<close> and \<open>execute\<close> above a promise chain is followed to its
  end in one go: the response to a command is there as soon as the command is
  submitted. Here the same code is followed event by event. \<open>connection.command(cmd)\<close>
  only submits the command; the store answers later, and the callbacks given to \<open>then\<close>
  run when it does. A run of \<open>execute()\<close> is the result object, the commands that are
  submitted and not answered yet (their indices in \<open>cmds\<close>), the log, and how the promise
  that \<open>execute()\<close> returned has settled, if it has.
\<close>

record Run =
  result :: BatchResult
  outstanding :: "nat list"
  events :: "event list"
  settled :: "(error + BatchResult) option"

definition Run_init :: Run where
  "Run_init = \<lparr>result = result_init, outstanding = [], events = [], settled = None\<rparr>"

text \<open>
  A call \<open>each(cmds, executeCmd, idx)\<close>, up to the point where it returns its promise.
  With a command at \<open>idx\<close> it calls \<open>connection.command\<close>, which submits the command
  (or throws when the connection is \<open>null\<close>: \<open>connection\<close> says whether there is one).
  With none it returns a resolved promise, and the last callback of \<open>execute\<close> sets
  \<open>ok\<close> and resolves with the result.
\<close>

definition each_call :: "bool \<Rightarrow> Command list \<Rightarrow> nat \<Rightarrow> Run \<Rightarrow> Run" where
  "each_call connection cs idx st =
     (if idx < length cs then
        (if connection then
           st\<lparr>outstanding := outstanding st @ [idx],
              events := events st @ [Submitted (cs ! idx)]\<rparr>
         else st\<lparr>settled := Some (Inl TypeError)\<rparr>)
      else st\<lparr>settled :=
                Some (Inr ((result st)\<lparr>extra := obj_set ''ok'' (JNum 1) (extra (result st))\<rparr>))\<rparr>)"

text \<open>
  The store answers the command submitted from index \<open>idx\<close>. Only a command that is
  outstanding can be answered, and only once. On a rejection the chain rejects. On a
  response the two callbacks of that command run: \<open>setResult\<close> merges the response, and
  \<open>each\<close> is called for the next index.
\<close>

definition command_settled ::
  "Command list \<Rightarrow> nat \<Rightarrow> error + CommandResult \<Rightarrow> Run \<Rightarrow> Run option" where
  "command_settled cs idx answer st =
     (if idx \<in> set (outstanding st) then
        (let st1 = st\<lparr>outstanding := remove1 idx (outstanding st)\<rparr>
         in case answer of
              Inl e \<Rightarrow> Some (st1\<lparr>settled := Some (Inl e)\<rparr>)
            | Inr cmdResult \<Rightarrow>
                Some (each_call True cs (idx + 1)
                        (st1\<lparr>result := setResult (cs ! idx) cmdResult (result st1),
                             events := events st1 @ [Merged (cs ! idx)]\<rparr>)))
      else None)"

text \<open>
  The callback \<open>connection => each(this.cmds, ...)\<close>, run when \<open>connect()\<close> has resolved,
  followed by the answers of the store in the order they arrive: each is a pair of the
  index of the command answered and the response or rejection. \<open>None\<close>: an answer was
  for a command that was not outstanding, which cannot happen. This is one call of
  \<open>execute()\<close>, on a \<open>cmds\<close> array that no other call changes while it runs.
\<close>

fun deliver :: "Command list \<Rightarrow> (nat \<times> (error + CommandResult)) list \<Rightarrow> Run \<Rightarrow> Run option" where
  "deliver cs [] st = Some st"
| "deliver cs (ia # ias) st =
     (case command_settled cs (fst ia) (snd ia) st of
        None \<Rightarrow> None
      | Some st' \<Rightarrow> deliver cs ias st')"

definition execute_run ::
  "bool \<Rightarrow> Command list \<Rightarrow> (nat \<times> (error + CommandResult)) list \<Rightarrow> Run option" where
  "execute_run connection cs replies = deliver cs replies (each_call connection cs 0 Run_init)"

subsection \<open>tojson\<close>

record Stats =
  nInsertOps :: int
  nUpdateOps :: int
  nRemoveOps :: int
  nBatches :: int

text \<open>
  \<open>v.length\<close> for the value of a property: an array and a string have one, \<open>undefined\<close>
  and \<open>null\<close> throw. The last equation stands for the values without a length; \<open>tojson\<close>
  never reads one (see \<open>countCmd_noop\<close>).
\<close>

fun js_length :: "jsvalue \<Rightarrow> error + int" where
  "js_length (JArr xs) = Inr (int (length xs))"
| "js_length JUndefined = Inl TypeError"
| "js_length JNull = Inl TypeError"
| "js_length (JStr s) = Inr (int (length s))"
| "js_length v = Inr 0"

text \<open>The body of the \<open>forEach\<close> callback of \<open>tojson\<close>, for one command.\<close>

definition countCmd :: "Command \<Rightarrow> Stats \<Rightarrow> error + Stats" where
  "countCmd cmd obj =
     (if truthy (Command_prop cmd ''update'') then
        (case js_length (Command_prop cmd ''updates'') of
           Inl e \<Rightarrow> Inl e | Inr l \<Rightarrow> Inr (obj\<lparr>nUpdateOps := nUpdateOps obj + l\<rparr>))
      else if truthy (Command_prop cmd ''insert'') then
        (case js_length (Command_prop cmd ''documents'') of
           Inl e \<Rightarrow> Inl e | Inr l \<Rightarrow> Inr (obj\<lparr>nInsertOps := nInsertOps obj + l\<rparr>))
      else if truthy (Command_prop cmd ''delete'') then
        (case js_length (Command_prop cmd ''deletes'') of
           Inl e \<Rightarrow> Inl e | Inr l \<Rightarrow> Inr (obj\<lparr>nRemoveOps := nRemoveOps obj + l\<rparr>))
      else Inr obj)"

fun countCmds :: "Command list \<Rightarrow> Stats \<Rightarrow> error + Stats" where
  "countCmds [] obj = Inr obj"
| "countCmds (cmd # rest) obj =
     (case countCmd cmd obj of Inl e \<Rightarrow> Inl e | Inr obj' \<Rightarrow> countCmds rest obj')"

text \<open>\<open>tojson()\<close> returns the counts and leaves the instance in a new state.\<close>

definition tojson :: "Bulk \<Rightarrow> (error + Stats) \<times> Bulk" where
  "tojson b =
     (let b1 = (case currentCmd b of None \<Rightarrow> b | Some r \<Rightarrow> b\<lparr>cmds := cmds b @ [r]\<rparr>);
          obj = \<lparr>nInsertOps = 0, nUpdateOps = 0, nRemoveOps = 0,
                 nBatches = int (length (cmds b1))\<rparr>
      in (countCmds (commands b1) obj, b1))"

section \<open>Cursor: the lazy cursor adapter\<close>

subsection \<open>The remote cursor handle\<close>

text \<open>
  The handle is an object of the store driver. The adapter reaches it through a
  reference \<open>'h\<close>; what the handle does is a function of the driver's state \<open>'s\<close>:
  \<^item> \<open>d_option key value\<close> is \<open>cursor[key](value)\<close>, which returns the cursor to go on with
    or throws;
  \<^item> \<open>d_addCursorFlag\<close> is \<open>cursor.addCursorFlag(key, value)\<close>;
  \<^item> \<open>d_on_close\<close> is \<open>cursor.on('close', listener)\<close>;
  \<^item> \<open>d_closed\<close> and \<open>d_killed\<close> read the properties \<open>closed\<close> and \<open>killed\<close>;
  \<^item> \<open>d_call name args\<close> is one of the asynchronous methods \<open>next\<close>, \<open>hasNext\<close>,
    \<open>close\<close>, \<open>count\<close>, \<open>explain\<close>, \<open>rewind\<close>, \<open>toArray\<close>, resolving or rejecting.
\<close>

record ('h, 's) Driver =
  d_option :: "string \<Rightarrow> jsvalue \<Rightarrow> 'h \<Rightarrow> 's \<Rightarrow> (error + 'h) \<times> 's"
  d_addCursorFlag :: "string \<Rightarrow> jsvalue \<Rightarrow> 'h \<Rightarrow> 's \<Rightarrow> (error + unit) \<times> 's"
  d_on_close :: "'h \<Rightarrow> 's \<Rightarrow> 's"
  d_closed :: "'h \<Rightarrow> 's \<Rightarrow> bool"
  d_killed :: "'h \<Rightarrow> 's \<Rightarrow> bool"
  d_call :: "string \<Rightarrow> jsvalue list \<Rightarrow> 'h \<Rightarrow> 's \<Rightarrow> (error + jsvalue) \<times> 's"

subsection \<open>class Cursor\<close>

text \<open>
  \<open>options\<close> and \<open>flags\<close> are the fields \<open>_options\<close> and \<open>_flags\<close>. The factory resolves
  with a handle, resolves with \<open>undefined\<close> (no collection) or rejects. \<open>factoryCalls\<close>
  is not a field of the class: it counts the calls of \<open>cursorFactory\<close>, for the
  statements about them.
\<close>

record ('h, 's) Cursor =
  cursorFactory :: "'s \<Rightarrow> (error + 'h option) \<times> 's"
  options :: "(string \<times> jsvalue) list"
  flags :: "(string \<times> jsvalue) list"
  cursor :: "'h option"
  factoryCalls :: nat

definition operations :: "string list" where
  "operations = [''batchSize'', ''hint'', ''limit'', ''maxTimeMS'', ''max'', ''min'', ''skip'',
                 ''snapshot'', ''sort'', ''collation'']"

text \<open>
  The constructor stores ten arrow functions on \<open>Cursor.prototype\<close>, one per operation.
  An arrow function keeps the \<open>this\<close> of the constructor call that made it, and the
  prototype is shared by all instances: \<open>setterThis\<close> is the instance the setters now on
  the prototype write to and return.
\<close>

record ('h, 's) Realm =
  instances :: "('h, 's) Cursor list"
  setterThis :: "nat option"

definition Realm_empty :: "('h, 's) Realm" where
  "Realm_empty = \<lparr>instances = [], setterThis = None\<rparr>"

definition Cursor_new ::
  "('s \<Rightarrow> (error + 'h option) \<times> 's) \<Rightarrow> ('h, 's) Realm \<Rightarrow> nat \<times> ('h, 's) Realm" where
  "Cursor_new factory rm =
     (let self = length (instances rm);
          c = \<lparr>cursorFactory = factory, options = [], flags = [], cursor = None,
               factoryCalls = 0\<rparr>
      in (self, \<lparr>instances = instances rm @ [c], setterThis = Some self\<rparr>))"

text \<open>
  \<open>self[operation](data)\<close> for an instance \<open>self\<close>: the function found on the prototype
  runs, whatever instance it is called on. It returns the instance it is bound to.
\<close>

definition setter ::
  "string \<Rightarrow> jsvalue \<Rightarrow> nat \<Rightarrow> ('h, 's) Realm \<Rightarrow> error + nat \<times> ('h, 's) Realm" where
  "setter operation data self rm =
     (if operation \<in> set operations then
        (case setterThis rm of
           None \<Rightarrow> Inl TypeError
         | Some this \<Rightarrow>
             (let c = instances rm ! this
              in Inr (this, rm\<lparr>instances := (instances rm)
                        [this := c\<lparr>options := obj_set operation data (options c)\<rparr>]\<rparr>)))
      else Inl TypeError)"

definition addCursorFlag :: "string \<Rightarrow> jsvalue \<Rightarrow> ('h, 's) Cursor \<Rightarrow> ('h, 's) Cursor" where
  "addCursorFlag flag v c = c\<lparr>flags := obj_set flag v (flags c)\<rparr>"

text \<open>
  The two \<open>forEach\<close> loops of \<open>getCursor\<close>, over the properties in the order of
  \<open>Object.keys\<close>.
\<close>

fun applyOptions ::
  "('h, 's) Driver \<Rightarrow> (string \<times> jsvalue) list \<Rightarrow> 'h \<Rightarrow> 's \<Rightarrow> (error + 'h) \<times> 's" where
  "applyOptions drv [] h s = (Inr h, s)"
| "applyOptions drv (kv # kvs) h s =
     (case d_option drv (fst kv) (snd kv) h s of
        (Inl e, s') \<Rightarrow> (Inl e, s')
      | (Inr h', s') \<Rightarrow> applyOptions drv kvs h' s')"

fun applyFlags ::
  "('h, 's) Driver \<Rightarrow> (string \<times> jsvalue) list \<Rightarrow> 'h \<Rightarrow> 's \<Rightarrow> (error + unit) \<times> 's" where
  "applyFlags drv [] h s = (Inr (), s)"
| "applyFlags drv (kv # kvs) h s =
     (case d_addCursorFlag drv (fst kv) (snd kv) h s of
        (Inl e, s') \<Rightarrow> (Inl e, s')
      | (Inr u, s') \<Rightarrow> applyFlags drv kvs h s')"

text \<open>
  \<open>getCursor()\<close> has two parts. The call itself tests \<open>this.cursor\<close> and, when there
  is none, calls the factory; it returns a promise that is already resolved with the
  handle (\<open>Some h\<close>) or one that waits for the factory (\<open>None\<close>). This is
  \<open>getCursor_call\<close>. The rest runs when the promise settles, \<open>getCursor_settle\<close>: the
  factory resolves with a handle, with \<open>undefined\<close>, or rejects, and the callback given
  to \<open>then\<close> applies the options and the flags that the instance has at that moment. A
  factory that resolves with \<open>undefined\<close> makes the callback throw, at \<open>cursor.on\<close> at
  the latest. \<open>this.cursor\<close> is assigned only when the callback gets to its end.
\<close>

definition getCursor_call :: "('h, 's) Cursor \<Rightarrow> 'h option \<times> ('h, 's) Cursor" where
  "getCursor_call c =
     (case cursor c of
        Some h \<Rightarrow> (Some h, c)
      | None \<Rightarrow> (None, c\<lparr>factoryCalls := factoryCalls c + 1\<rparr>))"

definition getCursor_settle ::
  "('h, 's) Driver \<Rightarrow> 'h option \<Rightarrow> ('h, 's) Cursor \<Rightarrow> 's \<Rightarrow> (error + 'h) \<times> ('h, 's) Cursor \<times> 's" where
  "getCursor_settle drv p c s =
     (case p of
        Some h \<Rightarrow> (Inr h, c, s)
      | None \<Rightarrow>
          (case cursorFactory c s of
             (Inl e, s1) \<Rightarrow> (Inl e, c, s1)
           | (Inr None, s1) \<Rightarrow> (Inl TypeError, c, s1)
           | (Inr (Some h0), s1) \<Rightarrow>
               (case applyOptions drv (own_entries (options c)) h0 s1 of
                  (Inl e, s2) \<Rightarrow> (Inl e, c, s2)
                | (Inr h1, s2) \<Rightarrow>
                    (case applyFlags drv (own_entries (flags c)) h1 s2 of
                       (Inl e, s3) \<Rightarrow> (Inl e, c, s3)
                     | (Inr u, s3) \<Rightarrow>
                         (Inr h1, c\<lparr>cursor := Some h1\<rparr>, d_on_close drv h1 s3)))))"


text \<open>
  \<open>this.getCursor().then(cursor => f(cursor))\<close>, in the same two parts: the callback
  \<open>f\<close> runs when the promise of \<open>getCursor\<close> has resolved.
\<close>

definition thenCursor_settle ::
  "('h, 's) Driver \<Rightarrow> 'h option \<Rightarrow> ('h, 's) Cursor \<Rightarrow> 's
     \<Rightarrow> (('h, 's) Cursor \<Rightarrow> 'h \<Rightarrow> 's \<Rightarrow> (error + jsvalue) \<times> 's)
     \<Rightarrow> (error + jsvalue) \<times> ('h, 's) Cursor \<times> 's" where
  "thenCursor_settle drv p c s f =
     (case getCursor_settle drv p c s of
        (Inl e, c', s') \<Rightarrow> (Inl e, c', s')
      | (Inr h, c', s') \<Rightarrow> (let (r, s'') = f c' h s' in (r, c', s'')))"

definition thenCursor ::
  "('h, 's) Driver \<Rightarrow> ('h, 's) Cursor \<Rightarrow> 's \<Rightarrow> (('h, 's) Cursor \<Rightarrow> 'h \<Rightarrow> 's \<Rightarrow> (error + jsvalue) \<times> 's)
     \<Rightarrow> (error + jsvalue) \<times> ('h, 's) Cursor \<times> 's" where
  "thenCursor drv c s f = (case getCursor_call c of (p, c1) \<Rightarrow> thenCursor_settle drv p c1 s f)"

text \<open>
  The methods of the class that go through \<open>getCursor\<close> once, and the callback each of
  them gives to \<open>then\<close>. \<open>size\<close> has the callback of \<open>count\<close>, and \<open>destroy\<close> is
  \<open>close\<close>.
\<close>

datatype consumer =
  Next | HasNext | ToArray | Count | Size | Explain | Rewind | Close | Destroy

fun callback ::
  "consumer \<Rightarrow> ('h, 's) Driver \<Rightarrow> ('h, 's) Cursor \<Rightarrow> 'h \<Rightarrow> 's \<Rightarrow> (error + jsvalue) \<times> 's" where
  "callback Count drv this h s = d_call drv ''count'' [JObj (options this)] h s"
| "callback Size drv this h s = d_call drv ''count'' [JObj (options this)] h s"
| "callback Explain drv this h s = d_call drv ''explain'' [] h s"
| "callback Destroy drv this h s = d_call drv ''close'' [] h s"
| "callback Close drv this h s = d_call drv ''close'' [] h s"
| "callback Next drv this h s =
     (if d_closed drv h s \<or> d_killed drv h s then (Inr JNull, s)
      else d_call drv ''next'' [] h s)"
| "callback HasNext drv this h s =
     (if d_closed drv h s then (Inr (JBool False), s) else d_call drv ''hasNext'' [] h s)"
| "callback Rewind drv this h s = d_call drv ''rewind'' [] h s"
| "callback ToArray drv this h s = d_call drv ''toArray'' [] h s"






definition cursor_next ::
  "('h, 's) Driver \<Rightarrow> ('h, 's) Cursor \<Rightarrow> 's \<Rightarrow> (error + jsvalue) \<times> ('h, 's) Cursor \<times> 's" where
  "cursor_next drv c s = thenCursor drv c s (callback Next drv)"







text \<open>A method call on the instance behind a reference of the realm.\<close>

definition onInstance ::
  "nat \<Rightarrow> (('h, 's) Cursor \<Rightarrow> 's \<Rightarrow> 'r \<times> ('h, 's) Cursor \<times> 's) \<Rightarrow> ('h, 's) Realm \<Rightarrow> 's
     \<Rightarrow> 'r \<times> ('h, 's) Realm \<times> 's" where
  "onInstance self m rm s =
     (case m (instances rm ! self) s of
        (r, c', s') \<Rightarrow> (r, rm\<lparr>instances := (instances rm)[self := c']\<rparr>, s'))"

subsection \<open>An in-memory driver\<close>

text \<open>
  A driver that keeps its cursors in a list, to run the adapter on concrete inputs: a
  handle is an index, and each cursor records the options and flags it was given,
  whether it is closed, and the documents it still has.
\<close>

record mem_cursor =
  applied :: "(string \<times> jsvalue) list"
  flagged :: "(string \<times> jsvalue) list"
  is_closed :: bool
  docs :: "jsvalue list"

definition mem_call :: "string \<Rightarrow> jsvalue list \<Rightarrow> nat \<Rightarrow> mem_cursor list \<Rightarrow> (error + jsvalue) \<times> mem_cursor list" where
  "mem_call name args h s =
     (if name = ''close'' then (Inr JUndefined, s[h := (s ! h)\<lparr>is_closed := True\<rparr>])
      else if name = ''next'' then
        (case docs (s ! h) of
           [] \<Rightarrow> (Inr JNull, s)
         | d # ds \<Rightarrow> (Inr d, s[h := (s ! h)\<lparr>docs := ds\<rparr>]))
      else if name = ''hasNext'' then (Inr (JBool (docs (s ! h) \<noteq> [])), s)
      else if name = ''toArray'' then (Inr (JArr (docs (s ! h))), s[h := (s ! h)\<lparr>docs := []\<rparr>])
      else if name = ''count'' then (Inr (JNum (int (length (docs (s ! h))))), s)
      else (Inr JUndefined, s))"

definition mem_driver :: "(nat, mem_cursor list) Driver" where
  "mem_driver =
     \<lparr>d_option = (\<lambda>k v h s. (Inr h, s[h := (s ! h)\<lparr>applied := applied (s ! h) @ [(k, v)]\<rparr>])),
      d_addCursorFlag = (\<lambda>k v h s. (Inr (), s[h := (s ! h)\<lparr>flagged := flagged (s ! h) @ [(k, v)]\<rparr>])),
      d_on_close = (\<lambda>h s. s),
      d_closed = (\<lambda>h s. is_closed (s ! h)),
      d_killed = (\<lambda>h s. False),
      d_call = mem_call\<rparr>"


definition mem_factory :: "jsvalue list \<Rightarrow> mem_cursor list \<Rightarrow> (error + nat option) \<times> mem_cursor list" where
  "mem_factory ds s =
     (Inr (Some (length s)),
      s @ [\<lparr>applied = [], flagged = [], is_closed = False, docs = ds\<rparr>])"

section \<open>Notions used in the statements\<close>

subsection \<open>Executions\<close>

text \<open>
  The chain of \<open>each\<close> by recursion on the list of commands; the write errors one
  response reports; the responses the store gives to a list of commands submitted one
  after the other; the commands a log says were submitted; and the two events of a
  command that is submitted and whose response is merged.
\<close>

fun chain :: "(Command \<Rightarrow> 'a \<times> 'w \<Rightarrow> error \<times> 'w + 'a \<times> 'w) \<Rightarrow> Command list \<Rightarrow> 'a \<times> 'w
     \<Rightarrow> error \<times> 'w + 'a \<times> 'w" where
  "chain exec [] st = Inr st"
| "chain exec (c # cs) st = (case exec c st of Inl e \<Rightarrow> Inl e | Inr st' \<Rightarrow> chain exec cs st')"

definition reported :: "CommandResult \<Rightarrow> jsvalue list" where
  "reported cr = (case cr_writeErrors cr of None \<Rightarrow> [] | Some es \<Rightarrow> es)"

fun answers :: "'s connection \<Rightarrow> Command list \<Rightarrow> 's \<Rightarrow> CommandResult list" where
  "answers command [] s = []"
| "answers command (c # cs) s =
     (case command c s of (Inl e, s') \<Rightarrow> [] | (Inr cr, s') \<Rightarrow> cr # answers command cs s')"

text \<open>
  The answers that arrive in a run when the store, given as a function of its state,
  answers each command as soon as it is submitted: one per command, each with the index
  of its command, up to and including the first rejection.
\<close>

fun serve :: "'s connection \<Rightarrow> Command list \<Rightarrow> nat \<Rightarrow> 's \<Rightarrow> (nat \<times> (error + CommandResult)) list" where
  "serve command [] idx s = []"
| "serve command (c # cs) idx s =
     (case command c s of
        (Inl e, s') \<Rightarrow> [(idx, Inl e)]
      | (Inr cr, s') \<Rightarrow> (idx, Inr cr) # serve command cs (Suc idx) s')"

fun submitted :: "event list \<Rightarrow> Command list" where
  "submitted [] = []"
| "submitted (Submitted c # es) = c # submitted es"
| "submitted (Merged c # es) = submitted es"

definition roundTrip :: "Command \<Rightarrow> event list" where
  "roundTrip c = [Submitted c, Merged c]"

subsection \<open>Accumulated states\<close>

text \<open>
  \<open>rep b gs\<close>: the instance \<open>b\<close> holds exactly the batches \<open>gs\<close>, the last one in the open
  command and the others, in order, in \<open>cmds\<close>. \<open>goodBatch\<close>: a batch is not empty, is
  within the size limit and has calls of its kind only. \<open>wellFilled\<close>: every batch but
  the last is full.
\<close>

definition rep :: "Bulk \<Rightarrow> (kind \<times> intent list) list \<Rightarrow> bool" where
  "rep b gs =
     (heap b = map (mkCommand (colName b) (bulkOrdered b) (bulkWriteConcern b)) gs \<and>
      cmds b = [0..<length gs - 1] \<and>
      currentCmd b = (if gs = [] then None else Some (length gs - 1)))"

definition goodBatch :: "kind \<times> intent list \<Rightarrow> bool" where
  "goodBatch g = (snd g \<noteq> [] \<and> length (snd g) \<le> MAX_BULK_SIZE \<and> list_all (\<lambda>i. kind_of i = fst g) (snd g))"

fun wellFilled :: "(kind \<times> intent list) list \<Rightarrow> bool" where
  "wellFilled [] = True"
| "wellFilled [g] = (snd g \<noteq> [] \<and> length (snd g) \<le> MAX_BULK_SIZE)"
| "wellFilled (g # gs) = (length (snd g) = MAX_BULK_SIZE \<and> wellFilled gs)"

subsection \<open>Concrete inputs\<close>

text \<open>
  A store that resolves every command with the count \<open>k\<close>, the write errors \<open>errs\<close>, one
  upserted entry and \<open>nModified = k\<close>, and counts the commands it has seen; a store that
  rejects every command; a \<open>connect\<close> that resolves with a given connection; and a world
  with nothing logged yet.
\<close>

definition ack :: "int \<Rightarrow> jsvalue list option \<Rightarrow> nat connection" where
  "ack k errs cmd s =
     (Inr \<lparr>n = k, cr_writeErrors = errs,
           cr_upserted = Some [JObj [(''index'', JNum 0), (''_id'', JObjectId 9)]],
           cr_nModified = Some k\<rparr>, Suc s)"

definition refuse :: "nat connection" where
  "refuse cmd s = (Inl (Rejected (JStr ''unreachable'')), s)"

definition connected :: "'s connection \<Rightarrow> 's \<Rightarrow> (error + 's connection option) \<times> 's" where
  "connected command s = (Inr (Some command), s)"

definition world0 :: "nat world" where
  "world0 = \<lparr>store = 0, trace = []\<rparr>"

text \<open>
  The instance after \<open>new Bulk(col, true)\<close> and one \<open>insert({})\<close> that was given the
  identifier 0.
\<close>

definition one_insert :: "string \<Rightarrow> Bulk" where
  "one_insert col =
     \<lparr>colName = col, bulkOrdered = True, bulkWriteConcern = default_writeConcern,
      cmds = [], currentCmd = Some 0,
      heap = [\<lparr>ordered = True, writeConcern = default_writeConcern,
               cmdNames = [(''insert'', col)],
               bulkCollections = [(''documents'', [JObj [(''_id'', JObjectId 0)]])]\<rparr>]\<rparr>"

text \<open>
  The instance after \<open>new Bulk('c', true)\<close>, \<open>insert({})\<close> with the identifier 0 and
  \<open>find({}).remove()\<close>; and a response of the store with \<open>n = 1\<close> and given write
  errors.
\<close>

definition insert_remove :: Bulk where
  "insert_remove =
     \<lparr>colName = ''c'', bulkOrdered = True, bulkWriteConcern = default_writeConcern,
      cmds = [0], currentCmd = Some 1,
      heap = [\<lparr>ordered = True, writeConcern = default_writeConcern,
               cmdNames = [(''insert'', ''c'')],
               bulkCollections = [(''documents'', [JObj [(''_id'', JObjectId 0)]])]\<rparr>,
              \<lparr>ordered = True, writeConcern = default_writeConcern,
               cmdNames = [(''delete'', ''c'')],
               bulkCollections = [(''deletes'', [JObj [(''q'', JObj []), (''limit'', JNum 0)]])]\<rparr>]\<rparr>"

definition done_one :: "jsvalue list option \<Rightarrow> CommandResult" where
  "done_one errs = \<lparr>n = 1, cr_writeErrors = errs, cr_upserted = None, cr_nModified = None\<rparr>"


text \<open>
  A cursor as the constructor leaves it, over the in-memory driver; one whose factory
  rejects; and the realm after two constructor calls.
\<close>

definition fresh_cursor :: "jsvalue list \<Rightarrow> (nat, mem_cursor list) Cursor" where
  "fresh_cursor ds =
     \<lparr>cursorFactory = mem_factory ds, options = [], flags = [], cursor = None,
      factoryCalls = 0\<rparr>"


definition two_cursors :: "(nat, mem_cursor list) Realm" where
  "two_cursors = \<lparr>instances = [fresh_cursor [JNum 1], fresh_cursor [JNum 2]], setterThis = Some 1\<rparr>"

text \<open>
  A sequence of accumulating calls followed by \<open>execute()\<close>, and a cursor on which
  \<open>limit(5)\<close>, \<open>addCursorFlag('tailable', true)\<close> and \<open>addCursorFlag('0', false)\<close>
  were called, in this order, before any consuming call.
\<close>

definition executeAfter ::
  "('s \<Rightarrow> (error + 's connection option) \<times> 's) \<Rightarrow> intent list \<Rightarrow> Bulk \<Rightarrow> 's world
     \<Rightarrow> (error + BatchResult) \<times> Bulk \<times> 's world" where
  "executeAfter connect is b w =
     (case accumulate is b of Inl e \<Rightarrow> (Inl e, b, w) | Inr b' \<Rightarrow> execute connect b' w)"


section \<open>Lemmas\<close>

subsection \<open>The chain of commands\<close>

lemma each_chain: "each cs exec idx st = chain exec (drop idx cs) st"
proof (induction cs exec idx st rule: each.induct)
  case (1 cs exec idx st)
  show ?case
  proof (cases "idx < length cs")
    case True
    then have d: "drop idx cs = cs ! idx # drop (Suc idx) cs"
      by (simp add: Cons_nth_drop_Suc)
    show ?thesis
      using True 1 by (subst each.simps) (simp add: d split: sum.splits)
  next
    case False
    then show ?thesis by (subst each.simps) simp
  qed
qed

lemma firstKey_unmapped: "map_of cmdKeys (firstKey cmd) = None"
  by (simp add: cmdKeys_def firstKey_def Command_keys_def)

lemma setResult_eq:
  "setResult cmd cr res =
     res\<lparr>writeErrors := writeErrors res @ reported cr,
         extra := obj_set ''undefined'' JNaN (extra res)\<rparr>"
  by (simp add: setResult_def firstKey_unmapped add_count_def reported_def Let_def split: option.splits)

lemma submitted_append: "submitted (xs @ ys) = submitted xs @ submitted ys"
  by (induction xs rule: submitted.induct) simp_all

lemma executeCmd_Some:
  "executeCmd (Some command) c (res, w) =
     (case command c (store w) of
        (Inl e, s') \<Rightarrow> Inl (e, w\<lparr>store := s', trace := trace w @ [Submitted c]\<rparr>)
      | (Inr cr, s') \<Rightarrow>
          Inr (setResult c cr res, w\<lparr>store := s', trace := trace w @ [Submitted c, Merged c]\<rparr>))"
  by (simp add: executeCmd_def Let_def split: prod.splits sum.splits)

lemma executeCmd_None: "executeCmd None c st = Inl (TypeError, snd st)"
  by (simp add: executeCmd_def)

lemma chain_resolved:
  "chain (executeCmd (Some command)) cs (res, w) = Inr (res', w') \<Longrightarrow>
     trace w' = trace w @ concat (map roundTrip cs) \<and>
     writeErrors res' = writeErrors res @ concat (map reported (answers command cs (store w))) \<and>
     length (answers command cs (store w)) = length cs \<and>
     nInserted res' = nInserted res \<and> nUpserted res' = nUpserted res \<and>
     nRemoved res' = nRemoved res \<and> nMatched res' = nMatched res \<and>
     nModified res' = nModified res \<and> writeConcernErrors res' = writeConcernErrors res \<and>
     upserted res' = upserted res"
proof (induction cs arbitrary: res w)
  case Nil
  then show ?case by simp
next
  case (Cons c cs)
  obtain r s1 where cm: "command c (store w) = (r, s1)" by (cases "command c (store w)")
  from Cons.prems cm obtain cr where r: "r = Inr cr"
    by (cases r) (simp_all add: executeCmd_Some)
  let ?w1 = "w\<lparr>store := s1, trace := trace w @ [Submitted c, Merged c]\<rparr>"
  from Cons.prems cm r
  have "chain (executeCmd (Some command)) cs (setResult c cr res, ?w1) = Inr (res', w')"
    by (simp add: executeCmd_Some)
  from Cons.IH[OF this] cm r show ?case
    by (simp add: setResult_eq roundTrip_def)
qed


lemma chain_resolves:
  "(\<forall>c s. \<exists>cr s'. command c s = (Inr cr, s')) \<Longrightarrow>
     \<exists>res' w'. chain (executeCmd (Some command)) cs (res, w) = Inr (res', w')"
proof (induction cs arbitrary: res w)
  case Nil
  then show ?case by simp
next
  case (Cons c cs)
  from Cons.prems obtain cr s1 where cm: "command c (store w) = (Inr cr, s1)" by blast
  let ?w1 = "w\<lparr>store := s1, trace := trace w @ [Submitted c, Merged c]\<rparr>"
  from Cons.IH[OF Cons.prems, of "setResult c cr res" ?w1] cm show ?case
    by (simp add: executeCmd_Some)
qed

lemma chain_null:
  "chain (executeCmd None) cs st = (if cs = [] then Inr st else Inl (TypeError, snd st))"
  by (cases cs) (simp_all add: executeCmd_None)

subsection \<open>Accumulation and batches\<close>

lemma perform_eq:
  "perform i b =
     (case ensureCommand (cmdName_of (kind_of i)) (bucket_of (kind_of i)) b of
        Inl e \<Rightarrow> Inl e
      | Inr (r, b1) \<Rightarrow> pushOp r (bucket_of (kind_of i)) (payload i) b1)"
  by (cases i)
     (simp_all add: insert_doc_def update_def updateOne_def replaceOne_def remove_def
        removeOne_def find_update_def find_remove_def builder_def upsert_def find_bulk_def
        split: sum.splits prod.splits)

lemma cmdName_of_inj: "(cmdName_of k = cmdName_of k') = (k = k')"
  by (cases k; cases k') simp_all

lemma cmdName_of_own: "cmdName_of k \<notin> set Object_prototype_names"
  by (cases k) (simp_all add: Object_prototype_names_def)

lemma truthy_getCmdName_mk:
  "truthy_name (getCmdName (cmdName_of k) (mkCommand col ord wc g)) = (fst g = k \<and> col \<noteq> [])"
  by (simp add: getCmdName_def obj_lookup_def mkCommand_def cmdName_of_inj cmdName_of_own)

lemma getBulkCollection_mk:
  "getBulkCollection (bucket_of (fst g)) (mkCommand col ord wc g) = Own (map payload (snd g))"
  by (simp add: getBulkCollection_def obj_lookup_def mkCommand_def)

lemma mustFlush_mk:
  "col \<noteq> [] \<Longrightarrow>
   mustFlush (cmdName_of k) (bucket_of k) (mkCommand col ord wc g) =
     Inr (\<not> (fst g = k \<and> length (snd g) \<noteq> MAX_BULK_SIZE))"
  by (auto simp add: mustFlush_def truthy_getCmdName_mk getBulkCollection_mk)

lemma fresh_command:
  "setBulkCollection (bucket_of k) (setCmdName (cmdName_of k) col (Command_new ord wc)) =
     mkCommand col ord wc (k, [])"
  by (simp add: setBulkCollection_def setCmdName_def Command_new_def mkCommand_def)

lemma push_mk:
  "(mkCommand col ord wc g)\<lparr>bulkCollections :=
      obj_set (bucket_of (fst g)) (map payload (snd g) @ [payload i])
        (bulkCollections (mkCommand col ord wc g))\<rparr> =
   mkCommand col ord wc (fst g, snd g @ [i])"
  by (simp add: mkCommand_def)

lemma ensure_rep_empty:
  assumes "rep b []"
  shows "ensureCommand (cmdName_of k) (bucket_of k) b =
           Inr (0, b\<lparr>currentCmd := Some 0,
                     heap := [mkCommand (colName b) (bulkOrdered b) (bulkWriteConcern b) (k, [])]\<rparr>)"
proof -
  from assms have c: "currentCmd b = None" and h: "heap b = []" by (simp_all add: rep_def)
  show ?thesis
    by (simp add: ensureCommand_def flushCurrent_def startCommand_def c h fresh_command Let_def)
qed

lemma rep_snoc:
  assumes "rep b (gs @ [g])"
  shows "currentCmd b = Some (length gs)"
    and "heap b ! length gs = mkCommand (colName b) (bulkOrdered b) (bulkWriteConcern b) g"
    and "length (heap b) = Suc (length gs)"
    and "cmds b = [0..<length gs]"
proof -
  from assms have h: "heap b = map (mkCommand (colName b) (bulkOrdered b) (bulkWriteConcern b)) (gs @ [g])"
    by (simp add: rep_def)
  from assms show "currentCmd b = Some (length gs)" by (simp add: rep_def)
  from assms show "cmds b = [0..<length gs]" by (simp add: rep_def)
  show "length (heap b) = Suc (length gs)" by (simp add: h)
  show "heap b ! length gs = mkCommand (colName b) (bulkOrdered b) (bulkWriteConcern b) g"
    by (simp add: h nth_append)
qed

lemma ensure_rep_keep:
  assumes "rep b (gs @ [g])" "colName b \<noteq> []" "fst g = k" "length (snd g) \<noteq> MAX_BULK_SIZE"
  shows "ensureCommand (cmdName_of k) (bucket_of k) b = Inr (length gs, b)"
proof -
  note r = rep_snoc[OF assms(1)]
  have m: "mustFlush (cmdName_of k) (bucket_of k) (heap b ! length gs) = Inr False"
    using assms(3,4) by (simp add: r(2) mustFlush_mk[OF assms(2)])
  show ?thesis
    by (simp add: ensureCommand_def flushCurrent_def startCommand_def r(1) m)
qed

lemma ensure_rep_flush:
  assumes "rep b (gs @ [g])" "colName b \<noteq> []" "\<not> (fst g = k \<and> length (snd g) \<noteq> MAX_BULK_SIZE)"
  shows "ensureCommand (cmdName_of k) (bucket_of k) b =
           Inr (Suc (length gs),
                b\<lparr>cmds := cmds b @ [length gs], currentCmd := Some (Suc (length gs)),
                  heap := heap b @ [mkCommand (colName b) (bulkOrdered b) (bulkWriteConcern b) (k, [])]\<rparr>)"
proof -
  note r = rep_snoc[OF assms(1)]
  have m: "mustFlush (cmdName_of k) (bucket_of k) (heap b ! length gs) = Inr True"
    using assms(3) by (simp add: r(2) mustFlush_mk[OF assms(2)])
  show ?thesis
    by (simp add: ensureCommand_def flushCurrent_def startCommand_def r(1) r(3) m fresh_command Let_def)
qed

lemma pushOp_mk:
  assumes "heap b ! r = mkCommand col ord wc g"
  shows "pushOp r (bucket_of (fst g)) (payload i) b =
           Inr (b\<lparr>heap := (heap b)[r := mkCommand col ord wc (fst g, snd g @ [i])]\<rparr>)"
  by (simp add: pushOp_def assms getBulkCollection_mk push_mk Let_def)

lemma addIntent_snoc: "addIntent (gs @ [g]) i = gs @ addIntent [g] i"
proof (induction gs)
  case Nil
  show ?case by simp
next
  case (Cons a gs)
  obtain x xs where "gs @ [g] = x # xs" by (cases "gs @ [g]") auto
  then have "addIntent (a # gs @ [g]) i = a # addIntent (gs @ [g]) i" by simp
  with Cons show ?case by simp
qed

lemma perform_rep:
  assumes r: "rep b gs" and c: "colName b \<noteq> []"
    and sz: "list_all (\<lambda>g. length (snd g) \<le> MAX_BULK_SIZE) gs"
  shows "\<exists>b'. perform i b = Inr b' \<and> rep b' (addIntent gs i) \<and> colName b' = colName b \<and>
           bulkOrdered b' = bulkOrdered b \<and> bulkWriteConcern b' = bulkWriteConcern b"
proof (cases gs rule: rev_cases)
  case Nil
  let ?mk = "mkCommand (colName b) (bulkOrdered b) (bulkWriteConcern b)"
  let ?b1 = "b\<lparr>currentCmd := Some 0, heap := [?mk (kind_of i, [])]\<rparr>"
  from r Nil have e: "ensureCommand (cmdName_of (kind_of i)) (bucket_of (kind_of i)) b = Inr (0, ?b1)"
    by (simp add: ensure_rep_empty)
  have h: "heap ?b1 ! 0 = ?mk (kind_of i, [])" by simp
  have p: "perform i b = Inr (?b1\<lparr>heap := (heap ?b1)[0 := ?mk (kind_of i, [i])]\<rparr>)"
    using pushOp_mk[OF h, of i] by (simp add: perform_eq e)
  from r Nil have "cmds b = []" by (simp add: rep_def)
  then have "rep (?b1\<lparr>heap := (heap ?b1)[0 := ?mk (kind_of i, [i])]\<rparr>) (addIntent gs i)"
    by (simp add: rep_def Nil)
  with p show ?thesis by simp
next
  case (snoc gs' g)
  let ?mk = "mkCommand (colName b) (bulkOrdered b) (bulkWriteConcern b)"
  note rs = rep_snoc[OF r[unfolded snoc]]
  from sz snoc have le: "length (snd g) \<le> MAX_BULK_SIZE" by simp
  show ?thesis
  proof (cases "fst g = kind_of i \<and> length (snd g) < MAX_BULK_SIZE")
    case True
    then have e: "ensureCommand (cmdName_of (fst g)) (bucket_of (fst g)) b = Inr (length gs', b)"
      using ensure_rep_keep[OF r[unfolded snoc] c refl] by simp
    from True have k: "kind_of i = fst g" by simp
    have p: "perform i b = Inr (b\<lparr>heap := (heap b)[length gs' := ?mk (fst g, snd g @ [i])]\<rparr>)"
      using pushOp_mk[OF rs(2), of i] by (simp add: perform_eq e k)
    have a: "addIntent gs i = gs' @ [(fst g, snd g @ [i])]"
      using True by (simp add: snoc addIntent_snoc)
    have hb: "heap b = map ?mk gs' @ [?mk g]"
      using r by (simp add: rep_def snoc)
    have "rep (b\<lparr>heap := (heap b)[length gs' := ?mk (fst g, snd g @ [i])]\<rparr>) (addIntent gs i)"
      by (simp add: rep_def a rs(1) rs(4) hb list_update_append)
    with p show ?thesis by simp
  next
    case False
    with le have nf: "\<not> (fst g = kind_of i \<and> length (snd g) \<noteq> MAX_BULK_SIZE)" by auto
    let ?b1 = "b\<lparr>cmds := cmds b @ [length gs'], currentCmd := Some (Suc (length gs')),
                  heap := heap b @ [?mk (kind_of i, [])]\<rparr>"
    have e: "ensureCommand (cmdName_of (kind_of i)) (bucket_of (kind_of i)) b = Inr (Suc (length gs'), ?b1)"
      using ensure_rep_flush[OF r[unfolded snoc] c nf] by simp
    have h: "heap ?b1 ! Suc (length gs') = ?mk (kind_of i, [])"
      by (simp add: nth_append rs(3))
    have p: "perform i b = Inr (?b1\<lparr>heap := (heap ?b1)[Suc (length gs') := ?mk (kind_of i, [i])]\<rparr>)"
      using pushOp_mk[OF h, of i] by (simp add: perform_eq e)
    have a: "addIntent gs i = gs' @ [g, (kind_of i, [i])]"
      using False by (simp add: snoc addIntent_snoc)
    have hb: "heap b = map ?mk gs' @ [?mk g]"
      using r by (simp add: rep_def snoc)
    have "rep (?b1\<lparr>heap := (heap ?b1)[Suc (length gs') := ?mk (kind_of i, [i])]\<rparr>) (addIntent gs i)"
      by (simp add: rep_def a rs(4) hb list_update_append)
    with p show ?thesis by simp
  qed
qed

lemma MAX_ge1: "Suc 0 \<le> MAX_BULK_SIZE"
  by (simp add: MAX_BULK_SIZE_def)

lemma addIntent_concat: "concat (map snd (addIntent gs i)) = concat (map snd gs) @ [i]"
  by (induction gs i rule: addIntent.induct) auto

lemma addIntent_kinds:
  "list_all (\<lambda>g. fst g = k) gs \<Longrightarrow> kind_of i = k \<Longrightarrow> list_all (\<lambda>g. fst g = k) (addIntent gs i)"
  by (induction gs i rule: addIntent.induct) auto

lemma addIntent_good: "list_all goodBatch gs \<Longrightarrow> list_all goodBatch (addIntent gs i)"
  by (induction gs i rule: addIntent.induct) (auto simp add: goodBatch_def MAX_ge1)

lemma MAX_pos: "0 < MAX_BULK_SIZE"
  by (simp add: MAX_BULK_SIZE_def)

lemma ceil_last:
  fixes l m :: nat
  assumes "0 < l" "l \<le> m"
  shows "(l + (m - 1)) div m = 1"
proof -
  from assms have m: "0 < m" by simp
  from assms have e: "l + (m - 1) = m + (l - 1)" by simp
  from assms have "(l - 1) div m = 0" by simp
  with m show ?thesis unfolding e by (simp add: div_add_self1)
qed

lemma ceil_full:
  fixes n m :: nat
  assumes "0 < m"
  shows "(m + n + (m - 1)) div m = Suc ((n + (m - 1)) div m)"
proof -
  have "m + n + (m - 1) = m + (n + (m - 1))" by simp
  with assms show ?thesis by (simp only: div_add_self1)
qed

lemma wellFilled_count:
  "wellFilled gs \<Longrightarrow> (length (concat (map snd gs)) + (MAX_BULK_SIZE - 1)) div MAX_BULK_SIZE = length gs"
proof (induction gs rule: wellFilled.induct)
  case 1
  show ?case using MAX_pos by simp
next
  case (2 g)
  then have "0 < length (snd g)" "length (snd g) \<le> MAX_BULK_SIZE" by simp_all
  from ceil_last[OF this] show ?case by simp
next
  case (3 g v va)
  then have l: "length (snd g) = MAX_BULK_SIZE" and
    ih: "(length (concat (map snd (v # va))) + (MAX_BULK_SIZE - 1)) div MAX_BULK_SIZE = length (v # va)"
    by simp_all
  have "length (concat (map snd (g # v # va))) = MAX_BULK_SIZE + length (concat (map snd (v # va)))"
    using l by simp
  then have "(length (concat (map snd (g # v # va))) + (MAX_BULK_SIZE - 1)) div MAX_BULK_SIZE
               = Suc ((length (concat (map snd (v # va))) + (MAX_BULK_SIZE - 1)) div MAX_BULK_SIZE)"
    using ceil_full[OF MAX_pos] by simp
  with ih show ?case by simp
qed

lemma addIntent_nonempty: "addIntent gs i \<noteq> []"
  by (induction gs i rule: addIntent.induct) simp_all

lemma addIntent_wellFilled:
  "wellFilled gs \<Longrightarrow> list_all (\<lambda>g. fst g = kind_of i) gs \<Longrightarrow> wellFilled (addIntent gs i)"
proof (induction gs i rule: addIntent.induct)
  case (1 i)
  then show ?case by (simp add: MAX_ge1)
next
  case (2 g i)
  then show ?case by (auto simp add: MAX_ge1)
next
  case (3 g v va i)
  then have "wellFilled (addIntent (v # va) i)" by simp
  moreover obtain x xs where "addIntent (v # va) i = x # xs"
    using addIntent_nonempty[of "v # va" i] by (cases "addIntent (v # va) i") auto
  ultimately show ?case using 3 by simp
qed

lemma foldl_addIntent_good:
  "list_all goodBatch gs \<Longrightarrow> list_all goodBatch (foldl addIntent gs is)"
  by (induction "is" arbitrary: gs) (simp_all add: addIntent_good)

lemma foldl_addIntent_concat:
  "concat (map snd (foldl addIntent gs is)) = concat (map snd gs) @ is"
  by (induction "is" arbitrary: gs) (simp_all add: addIntent_concat)

lemma foldl_addIntent_wellFilled:
  "wellFilled gs \<Longrightarrow> list_all (\<lambda>g. fst g = k) gs \<Longrightarrow> list_all (\<lambda>i. kind_of i = k) is \<Longrightarrow>
     wellFilled (foldl addIntent gs is) \<and> list_all (\<lambda>g. fst g = k) (foldl addIntent gs is)"
proof (induction "is" arbitrary: gs)
  case Nil
  then show ?case by simp
next
  case (Cons i "is")
  from Cons.prems have k: "kind_of i = k" and rest: "list_all (\<lambda>i. kind_of i = k) is" by simp_all
  have w: "wellFilled (addIntent gs i)"
    using addIntent_wellFilled[of gs i] Cons.prems(1,2) k by simp
  have a: "list_all (\<lambda>g. fst g = k) (addIntent gs i)"
    using addIntent_kinds[OF Cons.prems(2) k] .
  from Cons.IH[OF w a rest] show ?case by simp
qed

lemma accumulate_rep:
  assumes "rep b gs" "colName b \<noteq> []" "list_all goodBatch gs"
  shows "\<exists>b'. accumulate is b = Inr b' \<and> rep b' (foldl addIntent gs is) \<and> colName b' = colName b \<and>
           bulkOrdered b' = bulkOrdered b \<and> bulkWriteConcern b' = bulkWriteConcern b"
  using assms
proof (induction "is" arbitrary: b gs)
  case Nil
  then show ?case by simp
next
  case (Cons i "is")
  from Cons.prems(3) have sz: "list_all (\<lambda>g. length (snd g) \<le> MAX_BULK_SIZE) gs"
    by (simp add: list_all_iff goodBatch_def)
  from perform_rep[OF Cons.prems(1,2) sz, of i] obtain b1 where
    p: "perform i b = Inr b1" and r1: "rep b1 (addIntent gs i)" and
    cfg: "colName b1 = colName b" "bulkOrdered b1 = bulkOrdered b" "bulkWriteConcern b1 = bulkWriteConcern b"
    by blast
  from cfg Cons.prems(2) have c1: "colName b1 \<noteq> []" by simp
  from Cons.IH[OF r1 c1 addIntent_good[OF Cons.prems(3)], of ] obtain b' where
    "accumulate is b1 = Inr b'" "rep b' (foldl addIntent (addIntent gs i) is)"
    "colName b' = colName b1" "bulkOrdered b' = bulkOrdered b1" "bulkWriteConcern b' = bulkWriteConcern b1"
    by blast
  with p cfg show ?case by simp
qed

lemma rep_new: "rep (Bulk_new col ord opts) []"
  by (simp add: rep_def Bulk_new_def Let_def)

lemma commands_rep:
  assumes "rep b gs"
  shows "commands (pushCurrentCmd b) = map (mkCommand (colName b) (bulkOrdered b) (bulkWriteConcern b)) gs"
proof (cases gs rule: rev_cases)
  case Nil
  with assms show ?thesis by (simp add: rep_def commands_def pushCurrentCmd_def)
next
  case (snoc gs' g)
  note rs = rep_snoc[OF assms[unfolded snoc]]
  have "cmds (pushCurrentCmd b) = [0..<length (heap b)]"
    by (simp add: pushCurrentCmd_def rs)
  moreover have "heap (pushCurrentCmd b) = heap b"
    by (simp add: pushCurrentCmd_def rs)
  ultimately have "commands (pushCurrentCmd b) = heap b"
    by (simp add: commands_def map_nth)
  with assms show ?thesis by (simp add: rep_def)
qed

subsection \<open>execute\<close>

lemma cmdKeys_no_field: "list_all (\<lambda>k. map_of cmdKeys k = None) (Command_keys c)"
  by (simp add: cmdKeys_def Command_keys_def)

lemma one_insert_reached: "insert_doc [] 0 (Bulk_new col True None) = Inr (one_insert col)"
  by (simp add: insert_doc_def ensureCommand_def flushCurrent_def startCommand_def pushOp_def
      Bulk_new_def one_insert_def Let_def obj_get_def default_writeConcern_def with_id_def
      setBulkCollection_def setCmdName_def Command_new_def getBulkCollection_def
        obj_lookup_def Object_prototype_names_def)

lemma execute_Inr:
  assumes "execute connect b w = (Inr res, b', w')"
  shows "\<exists>connection s1 res0.
           connect (store w) = (Inr connection, s1) \<and> b' = pushCurrentCmd b \<and>
           chain (executeCmd connection) (commands b') (result_init, w\<lparr>store := s1\<rparr>) = Inr (res0, w') \<and>
           res = res0\<lparr>extra := obj_set ''ok'' (JNum 1) (extra res0)\<rparr>"
  using assms
  by (auto simp add: execute_def Let_def each_chain split: prod.splits sum.splits)

lemma execute_counts:
  assumes "execute connect b w = (Inr res, b', w')"
  shows "nInserted res = 0 \<and> nUpserted res = 0 \<and> nRemoved res = 0 \<and> nMatched res = 0 \<and>
         nModified res = 0 \<and> writeConcernErrors res = [] \<and> upserted res = []"
proof -
  from execute_Inr[OF assms] obtain connection s1 res0 where
    ch: "chain (executeCmd connection) (commands b') (result_init, w\<lparr>store := s1\<rparr>) = Inr (res0, w')"
    and res: "res = res0\<lparr>extra := obj_set ''ok'' (JNum 1) (extra res0)\<rparr>"
    by blast
  have "nInserted res0 = 0 \<and> nUpserted res0 = 0 \<and> nRemoved res0 = 0 \<and> nMatched res0 = 0 \<and>
         nModified res0 = 0 \<and> writeConcernErrors res0 = [] \<and> upserted res0 = []"
  proof (cases connection)
    case None
    with ch have "res0 = result_init" by (simp add: chain_null split: if_splits)
    then show ?thesis by (simp add: result_init_def)
  next
    case (Some command)
    from chain_resolved[OF ch[unfolded Some]] show ?thesis by (simp add: result_init_def)
  qed
  with res show ?thesis by simp
qed

lemma execute_resolving:
  assumes "connect (store w) = (Inr (Some command), s1)"
    and "\<forall>c s. \<exists>cr s'. command c s = (Inr cr, s')"
  shows "\<exists>res w'. execute connect b w = (Inr res, pushCurrentCmd b, w') \<and>
           trace w' = trace w @ concat (map roundTrip (commands (pushCurrentCmd b))) \<and>
           writeErrors res = concat (map reported (answers command (commands (pushCurrentCmd b)) s1)) \<and>
           length (answers command (commands (pushCurrentCmd b)) s1) = length (commands (pushCurrentCmd b))"
proof -
  let ?cs = "commands (pushCurrentCmd b)"
  from chain_resolves[OF assms(2), of ?cs result_init "w\<lparr>store := s1\<rparr>"] obtain res0 w' where
    ch: "chain (executeCmd (Some command)) ?cs (result_init, w\<lparr>store := s1\<rparr>) = Inr (res0, w')"
    by blast
  from chain_resolved[OF ch] have
    t: "trace w' = trace w @ concat (map roundTrip ?cs)" and
    e: "writeErrors res0 = concat (map reported (answers command ?cs s1))" and
    l: "length (answers command ?cs s1) = length ?cs"
    by (simp_all add: result_init_def)
  have "execute connect b w =
          (Inr (res0\<lparr>extra := obj_set ''ok'' (JNum 1) (extra res0)\<rparr>), pushCurrentCmd b, w')"
    by (simp add: execute_def Let_def assms(1) each_chain ch)
  with t e l show ?thesis by simp
qed

lemma submitted_roundTrips: "submitted (concat (map roundTrip cs)) = cs"
  by (induction cs) (simp_all add: roundTrip_def)

lemma execute_state: "execute connect b w = (r, b', w') \<Longrightarrow> b' = pushCurrentCmd b"
  by (auto simp add: execute_def Let_def split: prod.splits sum.splits)

lemma execute_with_connection:
  assumes "connect (store w) = (Inr (Some command), s1)"
  shows "execute connect b w =
           (case chain (executeCmd (Some command)) (commands (pushCurrentCmd b)) (result_init, w\<lparr>store := s1\<rparr>) of
              Inl (e, w2) \<Rightarrow> (Inl e, pushCurrentCmd b, w2)
            | Inr (res, w2) \<Rightarrow>
                (Inr (res\<lparr>extra := obj_set ''ok'' (JNum 1) (extra res)\<rparr>), pushCurrentCmd b, w2))"
  by (simp add: execute_def Let_def assms each_chain)

text \<open>
  \<open>execute\<close> is the run of \<open>execute_run\<close> in which every command is answered as soon
  as it is submitted.
\<close>

lemma chain_run:
  assumes "outstanding st0 = []" and "trace w = t @ events st0"
  shows "\<exists>st. deliver cs (serve command (drop k cs) k (store w)) (each_call True cs k st0) = Some st \<and>
           (case chain (executeCmd (Some command)) (drop k cs) (result st0, w) of
              Inl (e, w2) \<Rightarrow> settled st = Some (Inl e) \<and> trace w2 = t @ events st
            | Inr (res, w2) \<Rightarrow>
                settled st = Some (Inr (res\<lparr>extra := obj_set ''ok'' (JNum 1) (extra res)\<rparr>)) \<and>
                trace w2 = t @ events st)"
  using assms
proof (induction "length cs - k" arbitrary: k st0 w)
  case 0
  then have "drop k cs = []" "\<not> k < length cs" by simp_all
  with 0 show ?case by (simp add: each_call_def)
next
  case (Suc n)
  then have k: "k < length cs" by simp
  then have d: "drop k cs = cs ! k # drop (Suc k) cs" by (simp add: Cons_nth_drop_Suc)
  obtain a s' where cm: "command (cs ! k) (store w) = (a, s')" by (cases "command (cs ! k) (store w)")
  let ?st1 = "st0\<lparr>outstanding := [k], events := events st0 @ [Submitted (cs ! k)]\<rparr>"
  have e: "each_call True cs k st0 = ?st1" using k Suc.prems by (simp add: each_call_def)
  show ?case
  proof (cases a)
    case (Inl err)
    with cm k Suc.prems show ?thesis
      by (simp add: d e executeCmd_Some command_settled_def)
  next
    case (Inr cr)
    let ?st0' = "st0\<lparr>outstanding := [], result := setResult (cs ! k) cr (result st0),
                     events := events st0 @ [Submitted (cs ! k), Merged (cs ! k)]\<rparr>"
    let ?w' = "w\<lparr>store := s', trace := trace w @ [Submitted (cs ! k), Merged (cs ! k)]\<rparr>"
    have n: "n = length cs - Suc k" using Suc.hyps(2) by simp
    have o: "outstanding ?st0' = []" by simp
    have t: "trace ?w' = t @ events ?st0'" using Suc.prems by simp
    from Suc.hyps(1)[OF n o t]
    obtain st where
      dl: "deliver cs (serve command (drop (Suc k) cs) (Suc k) s') (each_call True cs (Suc k) ?st0') = Some st"
      and ch: "(case chain (executeCmd (Some command)) (drop (Suc k) cs) (result ?st0', ?w') of
              Inl (e, w2) \<Rightarrow> settled st = Some (Inl e) \<and> trace w2 = t @ events st
            | Inr (res, w2) \<Rightarrow>
                settled st = Some (Inr (res\<lparr>extra := obj_set ''ok'' (JNum 1) (extra res)\<rparr>)) \<and>
                trace w2 = t @ events st)"
      by auto
    have cs: "command_settled cs k (Inr cr) ?st1 = Some (each_call True cs (Suc k) ?st0')"
      by (simp add: command_settled_def)
    have "deliver cs (serve command (drop k cs) k (store w)) (each_call True cs k st0) = Some st"
      using dl by (simp add: d e cm Inr cs)
    moreover have "chain (executeCmd (Some command)) (drop k cs) (result st0, w) =
                   chain (executeCmd (Some command)) (drop (Suc k) cs) (result ?st0', ?w')"
      by (simp add: d executeCmd_Some cm Inr)
    ultimately show ?thesis using ch by auto
  qed
qed

lemma execute_run_agrees:
  assumes "connect (store w) = (Inr (Some command), s1)"
  shows "\<exists>st. execute_run True (commands (pushCurrentCmd b))
                 (serve command (commands (pushCurrentCmd b)) 0 s1) = Some st \<and>
              settled st = Some (fst (execute connect b w)) \<and>
              trace (snd (snd (execute connect b w))) = trace w @ events st"
proof -
  let ?cs = "commands (pushCurrentCmd b)"
  have o: "outstanding Run_init = []" by (simp add: Run_init_def)
  have t: "trace (w\<lparr>store := s1\<rparr>) = trace w @ events Run_init" by (simp add: Run_init_def)
  from chain_run[OF o t, of ?cs command 0] obtain st where
    d: "deliver ?cs (serve command ?cs 0 s1) (each_call True ?cs 0 Run_init) = Some st" and
    c: "(case chain (executeCmd (Some command)) ?cs (result_init, w\<lparr>store := s1\<rparr>) of
              Inl (e, w2) \<Rightarrow> settled st = Some (Inl e) \<and> trace w2 = trace w @ events st
            | Inr (res, w2) \<Rightarrow>
                settled st = Some (Inr (res\<lparr>extra := obj_set ''ok'' (JNum 1) (extra res)\<rparr>)) \<and>
                trace w2 = trace w @ events st)"
    by (auto simp add: Run_init_def)
  note ex = execute_with_connection[where connect=connect and w=w and b=b, OF assms]
  from c have "settled st = Some (fst (execute connect b w)) \<and>
               trace (snd (snd (execute connect b w))) = trace w @ events st"
    unfolding ex by (auto split: sum.splits prod.splits)
  with d show ?thesis by (auto simp add: execute_run_def)
qed

lemma run_one_insert:
  "execute (connected (ack 7 (Some [JStr ''E11000'']))) (one_insert ''c'') world0 =
     (Inr (result_init\<lparr>writeErrors := [JStr ''E11000''],
                       extra := [(''undefined'', JNaN), (''ok'', JNum 1)]\<rparr>),
      (one_insert ''c'')\<lparr>cmds := [0]\<rparr>,
      \<lparr>store = 1, trace = roundTrip (heap (one_insert ''c'') ! 0)\<rparr>)"
  by (simp add: execute_def connected_def ack_def world0_def one_insert_def pushCurrentCmd_def
      commands_def each_chain executeCmd_def setResult_def firstKey_def Command_keys_def
      cmdKeys_def add_count_def result_init_def roundTrip_def Let_def)

lemma deliver_snoc:
  "deliver cs (ias @ [ia]) st =
     (case deliver cs ias st of
        None \<Rightarrow> None
      | Some st' \<Rightarrow> command_settled cs (fst ia) (snd ia) st')"
  by (induction ias arbitrary: st) (simp_all split: option.splits)

lemma insert_remove_reached:
  "accumulate [Insert [] 0, Remove (JObj [])] (Bulk_new ''c'' True None) = Inr insert_remove"
  by (simp add: insert_doc_def remove_def find_remove_def builder_def find_bulk_def
        ensureCommand_def flushCurrent_def startCommand_def pushOp_def mustFlush_def
        getCmdName_def getBulkCollection_def obj_lookup_def Object_prototype_names_def
        Bulk_new_def insert_remove_def Let_def obj_get_def default_writeConcern_def with_id_def
        setBulkCollection_def setCmdName_def Command_new_def)

lemma ack_connected: "connected (ack k errs) (store world0) = (Inr (Some (ack k errs)), 0)"
  by (simp add: connected_def world0_def)

lemma ack_resolves: "\<forall>c s. \<exists>cr s'. ack k errs c s = (Inr cr, s')"
  by (simp add: ack_def)

lemma refuse_connected: "connected refuse (store world0) = (Inr (Some refuse), 0)"
  by (simp add: connected_def world0_def)

lemma countCmd_noop: "countCmd cmd obj = Inr obj"
  by (simp add: countCmd_def Command_prop_def Command_methods_def)

lemma countCmds_noop: "countCmds cs obj = Inr obj"
  by (induction cs arbitrary: obj) (simp_all add: countCmd_noop)

lemma tojson_eq:
  "tojson b =
     (Inr \<lparr>nInsertOps = 0, nUpdateOps = 0, nRemoveOps = 0,
           nBatches = int (length (cmds (pushCurrentCmd b)))\<rparr>,
      pushCurrentCmd b)"
  by (simp add: tojson_def pushCurrentCmd_def countCmds_noop Let_def split: option.splits)

subsection \<open>Batches\<close>

lemma operationsOf_mk: "operationsOf (mkCommand col ord wc g) = map payload (snd g)"
  by (simp add: operationsOf_def mkCommand_def)

lemma concat_operations:
  "concat (map operationsOf (map (mkCommand col ord wc) gs)) = map payload (concat (map snd gs))"
  by (induction gs) (simp_all add: operationsOf_mk)

lemma Bulk_new_colName: "colName (Bulk_new col ord opts) = col"
  by (simp add: Bulk_new_def Let_def)

lemma Bulk_new_ordered: "bulkOrdered (Bulk_new col ord opts) = ord"
  by (simp add: Bulk_new_def Let_def)

lemma accumulate_new:
  assumes "col \<noteq> []"
  shows "\<exists>b. accumulate is (Bulk_new col ord opts) = Inr b \<and>
           commands (pushCurrentCmd b) = map (mkCommand col ord (bulkWriteConcern b)) (batches is)"
proof -
  have c: "colName (Bulk_new col ord opts) \<noteq> []" using assms by (simp add: Bulk_new_colName)
  from accumulate_rep[OF rep_new c, of "is"] obtain b where
    a: "accumulate is (Bulk_new col ord opts) = Inr b" and r: "rep b (batches is)" and
    cfg: "colName b = col" "bulkOrdered b = ord"
    by (auto simp add: batches_def Bulk_new_colName Bulk_new_ordered)
  from commands_rep[OF r] cfg a show ?thesis by simp
qed

lemma batches_good: "list_all goodBatch (batches is)"
  using foldl_addIntent_good[of "[]" "is"] by (simp add: batches_def)

lemma batches_concat: "concat (map snd (batches is)) = is"
  using foldl_addIntent_concat[of "[]" "is"] by (simp add: batches_def)

lemma batches_single_kind:
  assumes "list_all (\<lambda>i. kind_of i = k) is"
  shows "(length is + (MAX_BULK_SIZE - 1)) div MAX_BULK_SIZE = length (batches is)"
proof -
  from foldl_addIntent_wellFilled[of "[]" k "is"] assms have "wellFilled (batches is)"
    by (simp add: batches_def)
  from wellFilled_count[OF this] show ?thesis by (simp add: batches_concat)
qed

lemma ensure_none:
  assumes "currentCmd b = None"
  shows "ensureCommand (cmdName_of k) (bucket_of k) b =
           Inr (length (heap b),
                b\<lparr>currentCmd := Some (length (heap b)),
                  heap := heap b @ [mkCommand (colName b) (bulkOrdered b) (bulkWriteConcern b) (k, [])]\<rparr>)"
  by (simp add: ensureCommand_def flushCurrent_def startCommand_def assms fresh_command Let_def)

lemma ensure_open:
  assumes "currentCmd b = Some r" "colName b \<noteq> []"
    and "heap b ! r = mkCommand (colName b) ord wc (k0, is0)" "length is0 \<le> MAX_BULK_SIZE"
  shows "ensureCommand (cmdName_of k) (bucket_of k) b =
           Inr (if k = k0 \<and> length is0 < MAX_BULK_SIZE then (r, b)
                else (length (heap b),
                      b\<lparr>cmds := cmds b @ [r], currentCmd := Some (length (heap b)),
                        heap := heap b @ [mkCommand (colName b) (bulkOrdered b) (bulkWriteConcern b) (k, [])]\<rparr>))"
proof -
  have m: "mustFlush (cmdName_of k) (bucket_of k) (heap b ! r) =
             Inr (\<not> (k0 = k \<and> length is0 \<noteq> MAX_BULK_SIZE))"
    by (simp add: assms(3) mustFlush_mk[OF assms(2)])
  show ?thesis
  proof (cases "k = k0 \<and> length is0 < MAX_BULK_SIZE")
    case True
    then have mf: "mustFlush (cmdName_of k) (bucket_of k) (heap b ! r) = Inr False"
      using m by simp
    from True have T: "(k = k0 \<and> length is0 < MAX_BULK_SIZE) = True" by simp
    show ?thesis unfolding T if_True
      by (simp add: ensureCommand_def flushCurrent_def startCommand_def assms(1) mf)
  next
    case False
    with assms(4) have mf: "mustFlush (cmdName_of k) (bucket_of k) (heap b ! r) = Inr True"
      using m by auto
    from False have F: "(k = k0 \<and> length is0 < MAX_BULK_SIZE) = False" by simp
    show ?thesis unfolding F if_False
      by (simp add: ensureCommand_def flushCurrent_def startCommand_def assms(1) mf fresh_command Let_def)
  qed
qed

lemma batches_three:
  assumes "kind_of i1 = KInsert" "kind_of i2 = KUpdate" "kind_of i3 = KInsert"
  shows "batches [i1, i2, i3] = [(KInsert, [i1]), (KUpdate, [i2]), (KInsert, [i3])]"
  by (simp add: batches_def assms)

lemma one_insert_open:
  "heap (one_insert col) ! 0 = mkCommand col True default_writeConcern (KInsert, [Insert [] 0])"
  by (simp add: one_insert_def mkCommand_def with_id_def obj_get_def)

subsection \<open>Cursor\<close>

lemma two_cursors_reached:
  "Cursor_new (mem_factory [JNum 2]) (snd (Cursor_new (mem_factory [JNum 1]) Realm_empty)) = (1, two_cursors)"
  by (simp add: Cursor_new_def Realm_empty_def two_cursors_def fresh_cursor_def Let_def)













subsection \<open>Inputs outside the preconditions\<close>

lemma empty_name_two_inserts:
  "length (submitted (trace (snd (snd (executeAfter (connected (ack 1 None))
      [Insert [] 0, Insert [] 1] (Bulk_new [] True None) world0))))) = 2 \<and>
   (2 + 999) div 1000 = (1::nat)"
  by (simp add: executeAfter_def insert_doc_def ensureCommand_def flushCurrent_def startCommand_def
        pushOp_def Bulk_new_def Let_def obj_get_def default_writeConcern_def with_id_def
        setBulkCollection_def setCmdName_def Command_new_def getBulkCollection_def
        obj_lookup_def Object_prototype_names_def
        mustFlush_def getCmdName_def
        execute_def connected_def ack_def world0_def pushCurrentCmd_def
        commands_def each_chain executeCmd_def)

lemma refused_after_first:
  "length (submitted (trace (snd (snd (executeAfter (connected refuse)
      (replicate 1001 (Insert [] 0)) (Bulk_new ''c'' True None) world0))))) = 1"
proof -
  let ?calls = "replicate 1001 (Insert [] 0)"
  have ne: "''c'' \<noteq> []" by simp
  from accumulate_new[OF ne, of ?calls True None] obtain b where
    a: "accumulate ?calls (Bulk_new ''c'' True None) = Inr b" and
    cs: "commands (pushCurrentCmd b) = map (mkCommand ''c'' True (bulkWriteConcern b)) (batches ?calls)"
    by blast
  have kinds: "list_all (\<lambda>i. kind_of i = KInsert) ?calls"
    by (simp add: list_all_iff)
  have "length (batches ?calls) = (1001 + (MAX_BULK_SIZE - 1)) div MAX_BULK_SIZE"
    using batches_single_kind[OF kinds] by simp
  then have "length (commands (pushCurrentCmd b)) = 2"
    by (simp add: cs MAX_BULK_SIZE_def)
  then obtain c0 c1 where two: "commands (pushCurrentCmd b) = [c0, c1]"
    by (cases "commands (pushCurrentCmd b)"; cases "tl (commands (pushCurrentCmd b))") auto
  note ex = execute_with_connection[where connect="connected refuse" and w=world0 and b=b,
              OF refuse_connected]
  have "execute (connected refuse) b world0 =
          (Inl (Rejected (JStr ''unreachable'')), pushCurrentCmd b,
           world0\<lparr>store := 0, trace := trace world0 @ [Submitted c0]\<rparr>)"
    unfolding ex two by (simp add: executeCmd_Some refuse_def)
  then show ?thesis by (simp add: executeAfter_def a world0_def)
qed

lemma empty_name_flushes:
  "insert_doc [] 0 (Bulk_new [] True None) = Inr (one_insert []) \<and>
   currentCmd (one_insert []) = Some 0 \<and>
   heap (one_insert []) ! 0 = mkCommand [] True default_writeConcern (KInsert, [Insert [] 0]) \<and>
   ensureCommand ''insert'' ''documents'' (one_insert []) =
     Inr (1, (one_insert [])\<lparr>cmds := [0], currentCmd := Some 1,
               heap := heap (one_insert []) @ [mkCommand [] True default_writeConcern (KInsert, [])]\<rparr>)"
  by (simp add: one_insert_reached one_insert_open)
     (simp add: one_insert_def ensureCommand_def flushCurrent_def startCommand_def mustFlush_def
        getCmdName_def obj_lookup_def Object_prototype_names_def mkCommand_def
        setBulkCollection_def setCmdName_def Command_new_def Let_def)

lemma unpaired_bucket_throws:
  "ensureCommand ''insert'' ''updates'' (one_insert ''c'') = Inl TypeError"
  by (simp add: one_insert_def ensureCommand_def flushCurrent_def mustFlush_def getCmdName_def
        getBulkCollection_def obj_lookup_def Object_prototype_names_def)

section \<open>The claims\<close>

text \<open>
  C1 (the counts of the result). The specification says that each command's reported
  \<open>n\<close> is added to the count field of the command's kind. \<open>setResult\<close> looks the field
  up under the first own property of the \<open>Command\<close> object, which is never a key of
  \<open>cmdKeys\<close>: no count field is ever added to. Whatever the store reports, a resolved
  result has \<open>nInserted\<close>, \<open>nUpserted\<close> and \<open>nRemoved\<close> equal to 0.
\<close>

theorem execute_counts_not_added:
  assumes "execute connect b w = (Inr res, b', w')"
  shows "nInserted res = 0 \<and> nUpserted res = 0 \<and> nRemoved res = 0"
  using execute_counts[OF assms] by simp

text \<open>
  One \<open>insert\<close>, and a store that answers \<open>n = 7\<close>: the result still has \<open>nInserted = 0\<close>.
\<close>

theorem execute_counts_not_added_witness:
  "insert_doc [] 0 (Bulk_new ''c'' True None) = Inr (one_insert ''c'') \<and>
   (\<exists>res b' w'. execute (connected (ack 7 (Some [JStr ''E11000'']))) (one_insert ''c'') world0 =
       (Inr res, b', w') \<and>
     nInserted res = 0 \<and> nUpserted res = 0 \<and> nRemoved res = 0)"
  using execute_counts_not_added[OF run_one_insert] run_one_insert one_insert_reached by blast

text \<open>
  C2 (batches of at most 1000), for a collection name that is not empty and a store that
  resolves every command: after \<open>N\<close> calls of one kind, \<open>execute()\<close> resolves, the
  commands it submits are exactly the accumulated ones, in order; there are
  \<open>ceil(N / 1000)\<close> of them, none has more than 1000 operations, and their operations,
  read in order, are the operations of the calls in the order of the calls.
\<close>

theorem single_kind_batching:
  assumes "col \<noteq> []" and "list_all (\<lambda>i. kind_of i = k) calls"
    and "connect (store w) = (Inr (Some command), s1)"
    and "\<forall>c s. \<exists>cr s'. command c s = (Inr cr, s')"
  shows "\<exists>b res w'. accumulate calls (Bulk_new col ord opts) = Inr b \<and>
           execute connect b w = (Inr res, pushCurrentCmd b, w') \<and>
           submitted (trace w') = submitted (trace w) @ commands (pushCurrentCmd b) \<and>
           length (commands (pushCurrentCmd b)) = (length calls + 999) div 1000 \<and>
           list_all (\<lambda>c. length (operationsOf c) \<le> 1000) (commands (pushCurrentCmd b)) \<and>
           concat (map operationsOf (commands (pushCurrentCmd b))) = map payload calls"
proof -
  from accumulate_new[OF assms(1), of calls ord opts] obtain b where
    a: "accumulate calls (Bulk_new col ord opts) = Inr b" and
    cs: "commands (pushCurrentCmd b) = map (mkCommand col ord (bulkWriteConcern b)) (batches calls)"
    by blast
  from execute_resolving[where connect=connect and w=w and b=b, OF assms(3,4)] obtain res w' where
    e: "execute connect b w = (Inr res, pushCurrentCmd b, w')" and
    t: "trace w' = trace w @ concat (map roundTrip (commands (pushCurrentCmd b)))"
    by blast
  have s: "submitted (trace w') = submitted (trace w) @ commands (pushCurrentCmd b)"
    by (simp add: t submitted_append submitted_roundTrips)
  have n: "length (commands (pushCurrentCmd b)) = (length calls + 999) div 1000"
    using batches_single_kind[OF assms(2)] by (simp add: cs MAX_BULK_SIZE_def)
  have "list_all (\<lambda>g. length (snd g) \<le> 1000) (batches calls)"
    using batches_good[of calls] by (simp add: list_all_iff goodBatch_def MAX_BULK_SIZE_def)
  then have l: "list_all (\<lambda>c. length (operationsOf c) \<le> 1000) (commands (pushCurrentCmd b))"
    by (simp add: cs list_all_iff operationsOf_mk)
  have o: "concat (map operationsOf (commands (pushCurrentCmd b))) = map payload calls"
    by (simp only: cs concat_operations batches_concat)
  from a e s n l o show ?thesis by blast
qed

text \<open>
  Three inserts into the collection \<open>c\<close>.
\<close>

theorem single_kind_batching_witness:
  "''c'' \<noteq> [] \<and>
   list_all (\<lambda>i. kind_of i = KInsert) [Insert [] 0, Insert [] 1, Insert [] 2] \<and>
   connected (ack 1 None) (store world0) = (Inr (Some (ack 1 None)), 0) \<and>
   (\<forall>c s. \<exists>cr s'. ack 1 None c s = (Inr cr, s')) \<and>
   (\<exists>b res w'. accumulate [Insert [] 0, Insert [] 1, Insert [] 2] (Bulk_new ''c'' True None) = Inr b \<and>
      execute (connected (ack 1 None)) b world0 = (Inr res, pushCurrentCmd b, w') \<and>
      submitted (trace w') = submitted (trace world0) @ commands (pushCurrentCmd b) \<and>
      length (commands (pushCurrentCmd b)) = (length [Insert [] 0, Insert [] 1, Insert [] 2] + 999) div 1000 \<and>
      list_all (\<lambda>c. length (operationsOf c) \<le> 1000) (commands (pushCurrentCmd b)) \<and>
      concat (map operationsOf (commands (pushCurrentCmd b))) =
        map payload [Insert [] 0, Insert [] 1, Insert [] 2])"
proof -
  have a: "''c'' \<noteq> []" by simp
  have b: "list_all (\<lambda>i. kind_of i = KInsert) [Insert [] 0, Insert [] 1, Insert [] 2]" by simp
  from single_kind_batching[where connect="connected (ack 1 None)" and w=world0
          and ord=True and opts=None, OF a b ack_connected ack_resolves]
       a b ack_connected[of 1 None] ack_resolves[of 1 None]
  show ?thesis by blast
qed

text \<open>
  C2 as stated fails in two ways. For the empty collection name \<open>getCmdName\<close> returns
  the empty string, which is falsy, so every call flushes the open command: two inserts
  are submitted as two commands, and \<open>ceil(2 / 1000)\<close> is 1. And a store that rejects a
  command ends the chain: of the two commands of 1001 inserts only the first is
  submitted.
\<close>

theorem batch_count_needs_name_and_store:
  "length (submitted (trace (snd (snd (executeAfter (connected (ack 1 None))
      [Insert [] 0, Insert [] 1] (Bulk_new [] True None) world0))))) = 2 \<and>
   (2 + 999) div 1000 = (1::nat) \<and>
   length (submitted (trace (snd (snd (executeAfter (connected refuse)
      (replicate 1001 (Insert [] 0)) (Bulk_new ''c'' True None) world0))))) = 1 \<and>
   (1001 + 999) div 1000 = (2::nat)"
  using empty_name_two_inserts refused_after_first by simp

text \<open>
  C3 (\<open>ensureCommand\<close>), for a collection name that is not empty and a call with the
  bucket of its kind, as \<open>insert\<close>, \<open>update\<close> and \<open>remove\<close> make it. When the open command
  holds the calls \<open>is0\<close> of kind \<open>k0\<close>, it is returned and nothing changes if \<open>k\<close> is
  \<open>k0\<close> and it has room; otherwise it is pushed onto \<open>cmds\<close> and a fresh command for \<open>k\<close>
  is started and returned. With no open command a fresh one is started and nothing is
  pushed. Consequently the commands of any sequence of calls are the batches of the
  specification, each of one kind only and together the calls in their order; and an
  insert, an update and an insert give three commands.
\<close>

theorem ensureCommand_batches:
  assumes "colName b \<noteq> []"
    and "\<forall>r. currentCmd b = Some r \<longrightarrow>
           heap b ! r = mkCommand (colName b) ord wc (k0, is0) \<and> length is0 \<le> MAX_BULK_SIZE"
    and "col \<noteq> []"
    and "kind_of i1 = KInsert" "kind_of i2 = KUpdate" "kind_of i3 = KInsert"
  shows "ensureCommand (cmdName_of k) (bucket_of k) b =
           Inr (case currentCmd b of
                  None \<Rightarrow>
                    (length (heap b),
                     b\<lparr>currentCmd := Some (length (heap b)),
                       heap := heap b @ [mkCommand (colName b) (bulkOrdered b) (bulkWriteConcern b) (k, [])]\<rparr>)
                | Some r \<Rightarrow>
                    if k = k0 \<and> length is0 < MAX_BULK_SIZE then (r, b)
                    else (length (heap b),
                          b\<lparr>cmds := cmds b @ [r], currentCmd := Some (length (heap b)),
                            heap := heap b @ [mkCommand (colName b) (bulkOrdered b) (bulkWriteConcern b) (k, [])]\<rparr>)) \<and>
         (\<exists>b'. accumulate calls (Bulk_new col ord' opts) = Inr b' \<and>
                commands (pushCurrentCmd b') = map (mkCommand col ord' (bulkWriteConcern b')) (batches calls) \<and>
                list_all goodBatch (batches calls) \<and> concat (map snd (batches calls)) = calls) \<and>
         (\<exists>b'. accumulate [i1, i2, i3] (Bulk_new col ord' opts) = Inr b' \<and>
                length (commands (pushCurrentCmd b')) = 3)"
proof -
  have one: "ensureCommand (cmdName_of k) (bucket_of k) b =
           Inr (case currentCmd b of
                  None \<Rightarrow>
                    (length (heap b),
                     b\<lparr>currentCmd := Some (length (heap b)),
                       heap := heap b @ [mkCommand (colName b) (bulkOrdered b) (bulkWriteConcern b) (k, [])]\<rparr>)
                | Some r \<Rightarrow>
                    if k = k0 \<and> length is0 < MAX_BULK_SIZE then (r, b)
                    else (length (heap b),
                          b\<lparr>cmds := cmds b @ [r], currentCmd := Some (length (heap b)),
                            heap := heap b @ [mkCommand (colName b) (bulkOrdered b) (bulkWriteConcern b) (k, [])]\<rparr>))"
  proof (cases "currentCmd b")
    case None
    then show ?thesis by (simp add: ensure_none)
  next
    case (Some r)
    with assms(2) have h: "heap b ! r = mkCommand (colName b) ord wc (k0, is0)"
      and l: "length is0 \<le> MAX_BULK_SIZE" by simp_all
    show ?thesis using ensure_open[OF Some assms(1) h l, of k] by (simp add: Some)
  qed
  from accumulate_new[OF assms(3), of calls ord' opts] obtain b' where
    "accumulate calls (Bulk_new col ord' opts) = Inr b'"
    "commands (pushCurrentCmd b') = map (mkCommand col ord' (bulkWriteConcern b')) (batches calls)"
    by blast
  then have two: "\<exists>b'. accumulate calls (Bulk_new col ord' opts) = Inr b' \<and>
                commands (pushCurrentCmd b') = map (mkCommand col ord' (bulkWriteConcern b')) (batches calls) \<and>
                list_all goodBatch (batches calls) \<and> concat (map snd (batches calls)) = calls"
    using batches_good batches_concat by blast
  from accumulate_new[OF assms(3), of "[i1, i2, i3]" ord' opts] obtain b3 where
    "accumulate [i1, i2, i3] (Bulk_new col ord' opts) = Inr b3"
    "commands (pushCurrentCmd b3) = map (mkCommand col ord' (bulkWriteConcern b3)) (batches [i1, i2, i3])"
    by blast
  then have three: "\<exists>b'. accumulate [i1, i2, i3] (Bulk_new col ord' opts) = Inr b' \<and>
                length (commands (pushCurrentCmd b')) = 3"
    by (simp add: batches_three[OF assms(4,5,6)])
  from one two three show ?thesis by blast
qed

text \<open>
  The instance after one insert into \<open>c\<close>: a further insert gets the open command.
\<close>

theorem ensureCommand_batches_witness:
  "colName (one_insert ''c'') \<noteq> [] \<and>
   currentCmd (one_insert ''c'') = Some 0 \<and>
   heap (one_insert ''c'') ! 0 = mkCommand ''c'' True default_writeConcern (KInsert, [Insert [] 0]) \<and>
   length [Insert [] 0] \<le> MAX_BULK_SIZE \<and>
   ensureCommand ''insert'' ''documents'' (one_insert ''c'') = Inr (0, one_insert ''c'') \<and>
   (\<exists>b'. accumulate [Insert [] 0, Update JNull False JNull, Insert [] 1] (Bulk_new ''c'' True None) = Inr b' \<and>
          length (commands (pushCurrentCmd b')) = 3)"
proof -
  have c: "colName (one_insert ''c'') \<noteq> []" by (simp add: one_insert_def)
  have cur: "currentCmd (one_insert ''c'') = Some 0" by (simp add: one_insert_def)
  have l: "length [Insert [] 0] \<le> MAX_BULK_SIZE" by (simp add: MAX_ge1)
  have cn: "colName (one_insert ''c'') = ''c''" by (simp add: one_insert_def)
  have h: "\<forall>r. currentCmd (one_insert ''c'') = Some r \<longrightarrow>
             heap (one_insert ''c'') ! r =
               mkCommand (colName (one_insert ''c'')) True default_writeConcern (KInsert, [Insert [] 0]) \<and>
             length [Insert [] 0] \<le> MAX_BULK_SIZE"
    using l by (simp add: cur cn one_insert_open)
  have col: "''c'' \<noteq> []" by simp
  have k1: "kind_of (Insert [] 0) = KInsert" by simp
  have k2: "kind_of (Update JNull False JNull) = KUpdate" by simp
  have k3: "kind_of (Insert [] 1) = KInsert" by simp
  note T = ensureCommand_batches[where k=KInsert and ord'=True and opts=None and calls="[]",
             OF c h col k1 k2 k3]
  have r: "1 < MAX_BULK_SIZE" by (simp add: MAX_BULK_SIZE_def)
  from T[THEN conjunct1]
  have "ensureCommand ''insert'' ''documents'' (one_insert ''c'') = Inr (0, one_insert ''c'')"
    using r by (simp add: cur)
  moreover from T[THEN conjunct2, THEN conjunct2]
  have "\<exists>b'. accumulate [Insert [] 0, Update JNull False JNull, Insert [] 1] (Bulk_new ''c'' True None) = Inr b' \<and>
          length (commands (pushCurrentCmd b')) = 3" .
  ultimately have "ensureCommand ''insert'' ''documents'' (one_insert ''c'') = Inr (0, one_insert ''c'')"
    and "\<exists>b'. accumulate [Insert [] 0, Update JNull False JNull, Insert [] 1] (Bulk_new ''c'' True None) = Inr b' \<and>
          length (commands (pushCurrentCmd b')) = 3"
    by blast+
  with c cur l one_insert_open[of "''c''"] show ?thesis by (intro conjI)
qed

text \<open>
  C3 as stated fails in two ways. For the empty collection name the open command is an
  insert command with one document, and \<open>ensureCommand('insert', 'documents')\<close> still
  flushes it and returns a fresh one. And a call that names a bucket the open command
  of that kind does not have, \<open>ensureCommand('insert', 'updates')\<close>, throws: it neither
  returns the open command nor starts a fresh one.
\<close>

theorem ensureCommand_needs_name_and_bucket:
  "insert_doc [] 0 (Bulk_new [] True None) = Inr (one_insert []) \<and>
   currentCmd (one_insert []) = Some 0 \<and>
   heap (one_insert []) ! 0 = mkCommand [] True default_writeConcern (KInsert, [Insert [] 0]) \<and>
   ensureCommand ''insert'' ''documents'' (one_insert []) =
     Inr (1, (one_insert [])\<lparr>cmds := [0], currentCmd := Some 1,
               heap := heap (one_insert []) @ [mkCommand [] True default_writeConcern (KInsert, [])]\<rparr>) \<and>
   ensureCommand ''insert'' ''updates'' (one_insert ''c'') = Inl TypeError"
  using empty_name_flushes unpaired_bucket_throws by simp

text \<open>
  C4 (one command at a time). Take any run of \<open>execute()\<close> after \<open>connect()\<close> has
  resolved, with the store free to answer whichever outstanding command it likes,
  whenever it likes. After any number of answers at most one command is outstanding;
  the answers so far were to the commands 0, 1, 2, ... in this order; and the log is, for
  each command answered with a response, its submission followed by the merge of that
  response, and then the submission of the next command if there is one. So command
  \<open>i + 1\<close> is submitted only after the response to command \<open>i\<close> was received and
  merged. Four states are possible: waiting for the one outstanding command; resolved,
  with every command answered; rejected by the store's last answer; and rejected
  before any submission, when the connection is \<open>null\<close>.
\<close>

theorem commands_one_at_a_time:
  assumes "execute_run connection cs replies = Some st"
  shows "length (outstanding st) \<le> 1 \<and>
         map fst replies = [0..<length replies] \<and>
         (outstanding st = [length replies] \<and> settled st = None \<and> length replies < length cs \<and>
            events st = concat (map roundTrip (take (length replies) cs)) @
                          [Submitted (cs ! length replies)] \<or>
          outstanding st = [] \<and> (\<exists>res. settled st = Some (Inr res)) \<and>
            length replies = length cs \<and> events st = concat (map roundTrip cs) \<or>
          outstanding st = [] \<and> (\<exists>e. settled st = Some (Inl e)) \<and>
            (\<exists>k<length cs. length replies = Suc k \<and>
               events st = concat (map roundTrip (take k cs)) @ [Submitted (cs ! k)]) \<or>
          outstanding st = [] \<and> settled st = Some (Inl TypeError) \<and> replies = [] \<and>
            events st = [])"
  using assms unfolding execute_run_def
proof (induction replies arbitrary: st rule: rev_induct)
  case Nil
  then have st: "st = each_call connection cs 0 Run_init" by simp
  show ?case
  proof (cases "0 < length cs")
    case True
    then show ?thesis by (cases connection) (simp_all add: st each_call_def Run_init_def)
  next
    case False
    then show ?thesis by (simp add: st each_call_def Run_init_def)
  qed
next
  case (snoc ia ias)
  from snoc.prems obtain st' where
    d: "deliver cs ias (each_call connection cs 0 Run_init) = Some st'" and
    c: "command_settled cs (fst ia) (snd ia) st' = Some st"
    by (auto simp add: deliver_snoc split: option.splits)
  from c have m: "fst ia \<in> set (outstanding st')"
    by (simp add: command_settled_def split: if_splits)
  note IH = snoc.IH[OF d]
  from IH m have
    o: "outstanding st' = [length ias]" and n: "settled st' = None" and
    l: "length ias < length cs" and
    e: "events st' = concat (map roundTrip (take (length ias) cs)) @ [Submitted (cs ! length ias)]"
    by auto
  from m o have i: "fst ia = length ias" by simp
  from IH i have f: "map fst (ias @ [ia]) = [0..<length (ias @ [ia])]" by simp
  show ?case
  proof (cases "snd ia")
    case (Inl err)
    with c i o have "st = st'\<lparr>outstanding := [], settled := Some (Inl err)\<rparr>"
      by (simp add: command_settled_def)
    with e l f show ?thesis by auto
  next
    case (Inr cmdResult)
    with c i o have st: "st = each_call True cs (Suc (length ias))
        (st'\<lparr>outstanding := [], result := setResult (cs ! length ias) cmdResult (result st'),
             events := events st' @ [Merged (cs ! length ias)]\<rparr>)"
      by (simp add: command_settled_def)
    have r: "concat (map roundTrip (take (Suc (length ias)) cs)) =
               concat (map roundTrip (take (length ias) cs)) @
                 [Submitted (cs ! length ias), Merged (cs ! length ias)]"
      using l by (simp add: take_Suc_conv_app_nth roundTrip_def)
    show ?thesis
    proof (cases "Suc (length ias) < length cs")
      case True
      with st e n r f show ?thesis by (simp add: each_call_def)
    next
      case False
      with l have "Suc (length ias) = length cs" by simp
      with st e r f show ?thesis by (simp add: each_call_def)
    qed
  qed
qed

text \<open>
  An insert and a remove make two commands. When the store has answered the first,
  the second is outstanding and nothing else; when it has answered both,
  \<open>execute()\<close> has resolved.
\<close>

theorem commands_one_at_a_time_witness:
  "accumulate [Insert [] 0, Remove (JObj [])] (Bulk_new ''c'' True None) = Inr insert_remove \<and>
   (\<exists>st. execute_run True (commands (pushCurrentCmd insert_remove)) [(0, Inr (done_one None))] =
            Some st \<and>
      outstanding st = [1] \<and> settled st = None \<and>
      events st = [Submitted (heap insert_remove ! 0), Merged (heap insert_remove ! 0),
                   Submitted (heap insert_remove ! 1)]) \<and>
   (\<exists>st res. execute_run True (commands (pushCurrentCmd insert_remove))
            [(0, Inr (done_one None)), (1, Inr (done_one None))] = Some st \<and>
      outstanding st = [] \<and> settled st = Some (Inr res) \<and>
      events st = [Submitted (heap insert_remove ! 0), Merged (heap insert_remove ! 0),
                   Submitted (heap insert_remove ! 1), Merged (heap insert_remove ! 1)])"
proof -
  let ?cs = "commands (pushCurrentCmd insert_remove)"
  have cs: "?cs = [heap insert_remove ! 0, heap insert_remove ! 1]"
    by (simp add: commands_def pushCurrentCmd_def insert_remove_def)
  obtain st1 where
    d1: "execute_run True ?cs [(0, Inr (done_one None))] = Some st1" and
    n1: "settled st1 = None"
    by (simp add: cs execute_run_def command_settled_def each_call_def Run_init_def)
  from commands_one_at_a_time[OF d1] n1 have
    "outstanding st1 = [1] \<and> settled st1 = None \<and>
     events st1 = [Submitted (heap insert_remove ! 0), Merged (heap insert_remove ! 0),
                   Submitted (heap insert_remove ! 1)]"
    by (simp add: cs roundTrip_def)
  with d1 have a: "\<exists>st. execute_run True ?cs [(0, Inr (done_one None))] = Some st \<and>
      outstanding st = [1] \<and> settled st = None \<and>
      events st = [Submitted (heap insert_remove ! 0), Merged (heap insert_remove ! 0),
                   Submitted (heap insert_remove ! 1)]"
    by blast
  obtain st2 res2 where
    d2: "execute_run True ?cs [(0, Inr (done_one None)), (1, Inr (done_one None))] = Some st2" and
    n2: "settled st2 = Some (Inr res2)"
    by (simp add: cs execute_run_def command_settled_def each_call_def Run_init_def)
  from commands_one_at_a_time[OF d2] n2 have
    "outstanding st2 = [] \<and> (\<exists>res. settled st2 = Some (Inr res)) \<and>
     events st2 = [Submitted (heap insert_remove ! 0), Merged (heap insert_remove ! 0),
                   Submitted (heap insert_remove ! 1), Merged (heap insert_remove ! 1)]"
    by (auto simp add: cs roundTrip_def)
  with d2 have b: "\<exists>st res. execute_run True ?cs
            [(0, Inr (done_one None)), (1, Inr (done_one None))] = Some st \<and>
      outstanding st = [] \<and> settled st = Some (Inr res) \<and>
      events st = [Submitted (heap insert_remove ! 0), Merged (heap insert_remove ! 0),
                   Submitted (heap insert_remove ! 1), Merged (heap insert_remove ! 1)]"
    by blast
  from insert_remove_reached a b show ?thesis by (intro conjI)
qed







text \<open>
  C7 (setters). The specification says a setter returns the cursor it is called on and
  that \<open>limit(5)\<close> before the first consuming call reaches the handle. The setters live
  on the shared prototype and are bound to the instance constructed last: with two
  cursors, \<open>limit(5)\<close> on the first one writes to the second one and returns it, and the
  first one is realized with no option applied.
\<close>

theorem setter_writes_to_latest_cursor:
  "Cursor_new (mem_factory [JNum 2]) (snd (Cursor_new (mem_factory [JNum 1]) Realm_empty)) =
     (1, two_cursors) \<and>
   setter ''limit'' (JNum 5) 0 two_cursors =
     Inr (1, two_cursors\<lparr>instances :=
               [fresh_cursor [JNum 1], (fresh_cursor [JNum 2])\<lparr>options := [(''limit'', JNum 5)]\<rparr>]\<rparr>) \<and>
   onInstance 0 (cursor_next mem_driver)
       (two_cursors\<lparr>instances :=
          [fresh_cursor [JNum 1], (fresh_cursor [JNum 2])\<lparr>options := [(''limit'', JNum 5)]\<rparr>]\<rparr>) [] =
     (Inr (JNum 1),
      two_cursors\<lparr>instances :=
          [(fresh_cursor [JNum 1])\<lparr>factoryCalls := 1, cursor := Some 0\<rparr>,
           (fresh_cursor [JNum 2])\<lparr>options := [(''limit'', JNum 5)]\<rparr>]\<rparr>,
      [\<lparr>applied = [], flagged = [], is_closed = False, docs = []\<rparr>])"
  by (simp add: two_cursors_reached)
     (simp add: setter_def operations_def two_cursors_def onInstance_def cursor_next_def
        thenCursor_def thenCursor_settle_def getCursor_call_def getCursor_settle_def
        own_entries_def fresh_cursor_def mem_factory_def mem_driver_def mem_call_def Let_def)




text \<open>
  C9 (\<open>tojson\<close>). The specification says \<open>tojson\<close> leaves the command list unchanged
  and gives the same counts when called twice. \<open>tojson\<close> pushes the open command onto
  \<open>cmds\<close> and keeps it open: after one insert the first call reports one batch and the
  second two, and neither counts the pending insert.
\<close>

theorem tojson_pushes_open_command:
  "tojson (one_insert ''c'') =
     (Inr \<lparr>nInsertOps = 0, nUpdateOps = 0, nRemoveOps = 0, nBatches = 1\<rparr>,
      (one_insert ''c'')\<lparr>cmds := [0]\<rparr>) \<and>
   tojson ((one_insert ''c'')\<lparr>cmds := [0]\<rparr>) =
     (Inr \<lparr>nInsertOps = 0, nUpdateOps = 0, nRemoveOps = 0, nBatches = 2\<rparr>,
      (one_insert ''c'')\<lparr>cmds := [0, 0]\<rparr>)"
  by (simp add: tojson_eq pushCurrentCmd_def one_insert_def)

text \<open>
  C10 (fields never written). A resolved result has \<open>nMatched = 0\<close>, \<open>nModified = 0\<close>
  and empty \<open>writeConcernErrors\<close> and \<open>upserted\<close>, whatever the store reports.
\<close>

theorem execute_fields_never_written:
  assumes "execute connect b w = (Inr res, b', w')"
  shows "nMatched res = 0 \<and> nModified res = 0 \<and> writeConcernErrors res = [] \<and> upserted res = []"
  using execute_counts[OF assms] by simp

text \<open>One insert, and a store that reports a count and a write error.\<close>

theorem execute_fields_never_written_witness:
  "\<exists>res b' w'. execute (connected (ack 7 (Some [JStr ''E11000'']))) (one_insert ''c'') world0 =
       (Inr res, b', w') \<and>
     nMatched res = 0 \<and> nModified res = 0 \<and> writeConcernErrors res = [] \<and> upserted res = []"
  using execute_fields_never_written[OF run_one_insert] run_one_insert by blast

end
